theory Spec2Isabelle
  imports Complex_Main
begin

section \<open>JavaScript values\<close>

text \<open>
  The repository is JavaScript (\<^verbatim>\<open>src/WebflowCMS.js\<close>) and TypeScript
  (\<^verbatim>\<open>proxy-fix/src\<close>). Both run on values produced by \<^verbatim>\<open>response.json()\<close>, so the
  model works on a datatype of run-time values: the JSON values, \<^verbatim>\<open>undefined\<close> (the
  value of a missing property) and \<open>JNative k\<close>, the built-in object or function found
  under the name \<open>k\<close> on a prototype (\<^verbatim>\<open>Object.prototype.toString\<close>,
  \<^verbatim>\<open>String.prototype.link\<close>, ...).

  A number is a double. Finite doubles are written as the rational they denote; the only
  operations the code applies to numbers are comparison, truthiness and \<^verbatim>\<open>isNaN\<close>, none
  of which rounds. A string is a list of characters; a \<open>char\<close> stands for one code unit
  in the range 0..255. Offsets, lengths and status codes are natural numbers, printed in
  decimal by a template literal. Writes to the console are left out.
\<close>

datatype jsnum = NaN | PosInf | NegInf | Fin rat

datatype jsval =
    JUndefined
  | JNull
  | JBool bool
  | JNum jsnum
  | JStr string
  | JArr "jsval list"
  | JObj "(string \<times> jsval) list"
  | JNative string

text \<open>
  What the code can throw: \<^verbatim>\<open>new Error(message)\<close>, a \<^verbatim>\<open>TypeError\<close> (a property read on
  \<^verbatim>\<open>null\<close>/\<^verbatim>\<open>undefined\<close>, a call of something that is not a function, a failed conversion
  to a primitive, a rejected \<^verbatim>\<open>fetch\<close>) and the \<^verbatim>\<open>SyntaxError\<close> of \<^verbatim>\<open>response.json()\<close>.
\<close>

datatype error = Error string | TypeError | SyntaxError

text \<open>
  Three functions of the platform do floating-point work (decimal parsing and printing
  with rounding). They are parameters of the model, never assumed to have any property.
\<close>

record builtins =
  parseFloat :: "string \<Rightarrow> jsnum"
  numberToString :: "jsnum \<Rightarrow> string"
  stringToNumber :: "string \<Rightarrow> jsnum"

definition bindE :: "error + 'a \<Rightarrow> ('a \<Rightarrow> error + 'b) \<Rightarrow> error + 'b" where
  "bindE m f = (case m of Inl e \<Rightarrow> Inl e | Inr x \<Rightarrow> f x)"

fun mapE :: "('a \<Rightarrow> error + 'b) \<Rightarrow> 'a list \<Rightarrow> error + 'b list" where
  "mapE f [] = Inr []"
| "mapE f (x # xs) = bindE (f x) (\<lambda>y. bindE (mapE f xs) (\<lambda>ys. Inr (y # ys)))"

text \<open>Truthiness (\<^verbatim>\<open>ToBoolean\<close>) and the test \<^verbatim>\<open>v == null\<close>.\<close>

fun truthy :: "jsval \<Rightarrow> bool" where
  "truthy JUndefined = False"
| "truthy JNull = False"
| "truthy (JBool b) = b"
| "truthy (JNum n) = (n \<noteq> NaN \<and> n \<noteq> Fin 0)"
| "truthy (JStr s) = (s \<noteq> [])"
| "truthy (JArr xs) = True"
| "truthy (JObj kvs) = True"
| "truthy (JNative k) = True"

definition nullish :: "jsval \<Rightarrow> bool" where
  "nullish v = (v = JUndefined \<or> v = JNull)"

text \<open>\<^verbatim>\<open>a || b\<close> on two expressions that may throw; \<open>b\<close> counts only when \<open>a\<close> is falsy.\<close>

definition orE :: "error + jsval \<Rightarrow> error + jsval \<Rightarrow> error + jsval" where
  "orE a b = (case a of Inl e \<Rightarrow> Inl e | Inr v \<Rightarrow> if truthy v then Inr v else b)"

text \<open>
  Property reads. An object written as a literal or parsed from JSON has its own
  properties and inherits those of \<^verbatim>\<open>Object.prototype\<close>, all of which are functions or
  objects.
\<close>

definition objectPrototypeKeys :: "string list" where
  "objectPrototypeKeys =
     [''constructor'', ''__defineGetter__'', ''__defineSetter__'', ''hasOwnProperty'',
      ''__lookupGetter__'', ''__lookupSetter__'', ''isPrototypeOf'',
      ''propertyIsEnumerable'', ''toString'', ''valueOf'', ''__proto__'',
      ''toLocaleString'']"

definition objGet :: "(string \<times> jsval) list \<Rightarrow> string \<Rightarrow> jsval" where
  "objGet kvs k =
     (case map_of kvs k of
        Some v \<Rightarrow> v
      | None \<Rightarrow> if k \<in> set objectPrototypeKeys then JNative k else JUndefined)"

text \<open>
  \<open>getProp v k\<close> is \<^verbatim>\<open>v.k\<close> for the property names the source writes out: \<^verbatim>\<open>items\<close>,
  \<^verbatim>\<open>total\<close>, \<^verbatim>\<open>pagination\<close>, \<^verbatim>\<open>length\<close>, \<^verbatim>\<open>fieldData\<close>, \<^verbatim>\<open>id\<close> and the field names of the
  two normalisers. Of these a string has \<^verbatim>\<open>length\<close> and \<^verbatim>\<open>link\<close> (\<^verbatim>\<open>String.prototype.link\<close>),
  an array has \<^verbatim>\<open>length\<close>, and numbers and booleans have none. The receivers in the
  source are parsed JSON, so a native never stands in that place; reading \<^verbatim>\<open>null\<close> or
  \<^verbatim>\<open>undefined\<close> throws.
\<close>

fun getProp :: "jsval \<Rightarrow> string \<Rightarrow> error + jsval" where
  "getProp JUndefined k = Inl TypeError"
| "getProp JNull k = Inl TypeError"
| "getProp (JObj kvs) k = Inr (objGet kvs k)"
| "getProp (JArr xs) k =
     Inr (if k = ''length'' then JNum (Fin (of_nat (length xs))) else JUndefined)"
| "getProp (JStr s) k =
     Inr (if k = ''length'' then JNum (Fin (of_nat (length s)))
          else if k = ''link'' then JNative ''link'' else JUndefined)"
| "getProp (JBool b) k = Inr JUndefined"
| "getProp (JNum n) k = Inr JUndefined"
| "getProp (JNative f) k = Inr JUndefined"

text \<open>
  \<^verbatim>\<open>ToString\<close>, which also yields the property key of \<^verbatim>\<open>table[v]\<close>. An array is joined
  with commas, \<^verbatim>\<open>null\<close> and \<^verbatim>\<open>undefined\<close> elements giving the empty string. A plain
  object gives \<^verbatim>\<open>[object Object]\<close> through the inherited \<^verbatim>\<open>toString\<close>; when it has a
  \<^verbatim>\<open>toString\<close> property of its own (from JSON: never a function) the conversion finds
  no method that returns a primitive and throws.
\<close>

fun joinE :: "(error + string) list \<Rightarrow> error + string" where
  "joinE [] = Inr []"
| "joinE [p] = p"
| "joinE (p # q # ps) =
     (case p of
        Inl e \<Rightarrow> Inl e
      | Inr s \<Rightarrow> (case joinE (q # ps) of Inl e \<Rightarrow> Inl e | Inr t \<Rightarrow> Inr (s @ '','' @ t)))"

fun toStringJS :: "builtins \<Rightarrow> jsval \<Rightarrow> error + string" where
  "toStringJS B JUndefined = Inr ''undefined''"
| "toStringJS B JNull = Inr ''null''"
| "toStringJS B (JBool b) = Inr (if b then ''true'' else ''false'')"
| "toStringJS B (JNum n) = Inr (numberToString B n)"
| "toStringJS B (JStr s) = Inr s"
| "toStringJS B (JArr xs) =
     joinE (map (\<lambda>x. if nullish x then Inr [] else toStringJS B x) xs)"
| "toStringJS B (JObj kvs) =
     (if map_of kvs ''toString'' \<noteq> None then Inl TypeError else Inr ''[object Object]'')"
| "toStringJS B (JNative k) =
     Inr (if k = ''__proto__'' then ''[object Object]''
          else ''function '' @ k @ ''() { [native code] }'')"

text \<open>\<^verbatim>\<open>table[key]\<close> on an object literal \<open>table\<close>.\<close>

definition bracketGet :: "builtins \<Rightarrow> (string \<times> jsval) list \<Rightarrow> jsval \<Rightarrow> error + jsval" where
  "bracketGet B table key = bindE (toStringJS B key) (\<lambda>k. Inr (objGet table k))"

text \<open>\<^verbatim>\<open>ToNumber\<close> and the comparison of two numbers (\<open>None\<close>: undefined, a \<^verbatim>\<open>NaN\<close> operand).\<close>

fun toNumber :: "builtins \<Rightarrow> jsval \<Rightarrow> error + jsnum" where
  "toNumber B JUndefined = Inr NaN"
| "toNumber B JNull = Inr (Fin 0)"
| "toNumber B (JBool b) = Inr (Fin (if b then 1 else 0))"
| "toNumber B (JNum n) = Inr n"
| "toNumber B (JStr s) = Inr (stringToNumber B s)"
| "toNumber B v = bindE (toStringJS B v) (\<lambda>s. Inr (stringToNumber B s))"

fun jsLess :: "jsnum \<Rightarrow> jsnum \<Rightarrow> bool option" where
  "jsLess NaN y = None"
| "jsLess x NaN = None"
| "jsLess PosInf y = Some False"
| "jsLess x PosInf = Some True"
| "jsLess x NegInf = Some False"
| "jsLess NegInf y = Some True"
| "jsLess (Fin a) (Fin b) = Some (a < b)"

text \<open>\<^verbatim>\<open>x < y\<close> and \<^verbatim>\<open>x >= y\<close> with a number on one side.\<close>

definition jsLt :: "builtins \<Rightarrow> jsval \<Rightarrow> jsnum \<Rightarrow> error + bool" where
  "jsLt B x y = bindE (toNumber B x) (\<lambda>n. Inr (jsLess n y = Some True))"

definition jsGe :: "builtins \<Rightarrow> jsnum \<Rightarrow> jsval \<Rightarrow> error + bool" where
  "jsGe B x y = bindE (toNumber B y) (\<lambda>n. Inr (jsLess x n = Some False))"

section \<open>Strings\<close>

text \<open>A natural number in a template literal: its decimal digits.\<close>

fun showNat :: "nat \<Rightarrow> string" where
  "showNat n =
     (if n < 10 then [''0123456789'' ! n]
      else showNat (n div 10) @ [''0123456789'' ! (n mod 10)])"

declare showNat.simps [simp del]

fun startsWith :: "string \<Rightarrow> string \<Rightarrow> bool" where
  "startsWith s [] = True"
| "startsWith [] (c # cs) = False"
| "startsWith (x # xs) (c # cs) = (x = c \<and> startsWith xs cs)"

fun includesStr :: "string \<Rightarrow> string \<Rightarrow> bool" where
  "includesStr [] sub = (sub = [])"
| "includesStr (x # xs) sub = (startsWith (x # xs) sub \<or> includesStr xs sub)"

text \<open>\<^verbatim>\<open>s.split(c)\<close> for a one-character separator: empty pieces are kept.\<close>

fun splitOn :: "char \<Rightarrow> string \<Rightarrow> string list" where
  "splitOn c [] = [[]]"
| "splitOn c (x # xs) =
     (if x = c then [] # splitOn c xs
      else (case splitOn c xs of [] \<Rightarrow> [[x]] | p # ps \<Rightarrow> (x # p) # ps))"

text \<open>
  \<^verbatim>\<open>s.trim()\<close>: the white space and line terminators among the code units 0..255 are
  tab, line feed, vertical tab, form feed, carriage return, space and no-break space.
\<close>

definition isWhiteSpace :: "char \<Rightarrow> bool" where
  "isWhiteSpace c =
     (c \<in> set [CHR 0x09, CHR 0x0A, CHR 0x0B, CHR 0x0C, CHR 0x0D, CHR '' '', CHR 0xA0])"

definition trim :: "string \<Rightarrow> string" where
  "trim s = rev (dropWhile isWhiteSpace (rev (dropWhile isWhiteSpace s)))"

section \<open>HTTP\<close>

text \<open>
  The fields of a record are constants of the theory, so each carries the name of its
  record in front: \<open>req_url\<close> is \<^verbatim>\<open>url\<close>, \<open>resp_ok\<close> is \<^verbatim>\<open>response.ok\<close>, \<open>cms_cache\<close>
  is \<^verbatim>\<open>this.cache\<close>, \<open>entry_timestamp\<close> is \<^verbatim>\<open>cached.timestamp\<close>.
\<close>

record request =
  req_url :: string
  req_headers :: "(string \<times> string) list"

text \<open>
  A response: \<^verbatim>\<open>response.ok\<close>, \<^verbatim>\<open>response.status\<close>, the body read by
  \<^verbatim>\<open>response.text()\<close> and the outcome of \<^verbatim>\<open>response.json()\<close>. The upstream is a function
  from the request to the outcome of \<^verbatim>\<open>fetch\<close> (\<open>Inl\<close>: the promise rejects). The requests
  issued are recorded in order.
\<close>

record response =
  resp_ok :: bool
  resp_status :: nat
  resp_text :: string
  resp_json :: "error + jsval"

type_synonym upstream = "request \<Rightarrow> error + response"

type_synonym sweep = "(request list \<times> (error + jsval list)) option"

text \<open>The outcome of the checks made on one page: leave the loop or go on.\<close>

datatype step = Break "jsval list" | Continue "jsval list"

text \<open>\<^verbatim>\<open>allItems.concat(items)\<close>: an array is spread, anything else is appended as one element.\<close>

fun concatJS :: "jsval list \<Rightarrow> jsval \<Rightarrow> jsval list" where
  "concatJS allItems (JArr xs) = allItems @ xs"
| "concatJS allItems v = allItems @ [v]"

text \<open>\<^verbatim>\<open>total != null && allItems.length >= total\<close>, with \<open>n\<close> the length of \<^verbatim>\<open>allItems\<close>.\<close>

definition totalReached :: "builtins \<Rightarrow> nat \<Rightarrow> jsval \<Rightarrow> error + bool" where
  "totalReached B n totalCount =
     (if nullish totalCount then Inr False else jsGe B (Fin (of_nat n)) totalCount)"

section \<open>The proxy paginator: proxy-fix/src/lib/fetchAllCollectionItems.ts\<close>

definition PAGE_SIZE :: nat where
  "PAGE_SIZE = 100"

definition itemsRequest :: "string \<Rightarrow> string \<Rightarrow> nat \<Rightarrow> request" where
  "itemsRequest collectionId apiToken offset =
     \<lparr>req_url = ''https://api.webflow.com/v2/collections/'' @ collectionId @ ''/items''
                 @ ''?limit='' @ showNat PAGE_SIZE @ ''&offset='' @ showNat offset,
      req_headers = [(''Authorization'', ''Bearer '' @ apiToken),
                     (''Accept-Version'', ''1.0.0''),
                     (''Content-Type'', ''application/json'')]\<rparr>"

text \<open>
  Lines 37 to 44: \<^verbatim>\<open>data.items ?? []\<close>, \<^verbatim>\<open>data.pagination?.total\<close> and the three exits.
  \<open>body\<close> is the parsed body, \<^verbatim>\<open>data\<close> in the source.
\<close>

definition pageItems :: "jsval \<Rightarrow> error + jsval" where
  "pageItems body = bindE (getProp body ''items'') (\<lambda>v. Inr (if nullish v then JArr [] else v))"

definition paginationTotal :: "jsval \<Rightarrow> error + jsval" where
  "paginationTotal body =
     bindE (getProp body ''pagination'')
       (\<lambda>p. if nullish p then Inr JUndefined else getProp p ''total'')"

definition afterPage :: "builtins \<Rightarrow> jsval \<Rightarrow> jsval list \<Rightarrow> error + step" where
  "afterPage B body allItems =
     bindE (pageItems body) (\<lambda>items.
     bindE (getProp items ''length'') (\<lambda>len.
       if len = JNum (Fin 0) then Inr (Break allItems)
       else
         let allItems' = concatJS allItems items in
         bindE (paginationTotal body) (\<lambda>totalCount.
         bindE (totalReached B (length allItems') totalCount) (\<lambda>reached.
           if reached then Inr (Break allItems')
           else
             bindE (jsLt B len (Fin (of_nat PAGE_SIZE))) (\<lambda>short.
               if short then Inr (Break allItems') else Inr (Continue allItems'))))))"

partial_function (option) fetchAllCollectionItems_loop ::
  "builtins \<Rightarrow> upstream \<Rightarrow> string \<Rightarrow> string \<Rightarrow> nat \<Rightarrow> jsval list \<Rightarrow> request list \<Rightarrow> sweep"
where
  "fetchAllCollectionItems_loop B fetch collectionId apiToken offset allItems reqs =
     (let req = itemsRequest collectionId apiToken offset; reqs' = reqs @ [req] in
      case fetch req of
        Inl e \<Rightarrow> Some (reqs', Inl e)
      | Inr r \<Rightarrow>
          if \<not> resp_ok r then
            Some (reqs', Inl (Error (''Webflow API '' @ showNat (resp_status r) @ '': '' @ resp_text r)))
          else
            (case resp_json r of
               Inl e \<Rightarrow> Some (reqs', Inl e)
             | Inr body \<Rightarrow>
                 (case afterPage B body allItems of
                    Inl e \<Rightarrow> Some (reqs', Inl e)
                  | Inr (Break out) \<Rightarrow> Some (reqs', Inr out)
                  | Inr (Continue allItems') \<Rightarrow>
                      fetchAllCollectionItems_loop B fetch collectionId apiToken
                        (offset + PAGE_SIZE) allItems' reqs')))"

definition fetchAllCollectionItems :: "builtins \<Rightarrow> upstream \<Rightarrow> string \<Rightarrow> string \<Rightarrow> sweep" where
  "fetchAllCollectionItems B fetch collectionId apiToken =
     fetchAllCollectionItems_loop B fetch collectionId apiToken 0 [] []"

section \<open>The route handlers: proxy-fix/src/pages/api/monuments.json.ts, ecosystem.json.ts\<close>

text \<open>
  \<^verbatim>\<open>locals.runtime.env\<close>: each variable is a string or missing. The response of a handler
  is its status, its headers and the value handed to \<^verbatim>\<open>JSON.stringify\<close> for the body.
\<close>

record env =
  WEBFLOW_API_TOKEN :: "string option"
  MONUMENTS_COLLECTION_ID :: "string option"
  ECOSYSTEM_COLLECTION_ID :: "string option"

record reply =
  reply_body :: jsval
  reply_status :: nat
  reply_headers :: "(string \<times> string) list"

text \<open>\<^verbatim>\<open>!v\<close> for an environment variable: missing or the empty string.\<close>

definition unset :: "string option \<Rightarrow> bool" where
  "unset v = (case v of None \<Rightarrow> True | Some s \<Rightarrow> s = [])"

definition errorReply :: "string \<Rightarrow> reply" where
  "errorReply message =
     \<lparr>reply_body = JObj [(''error'', JStr message)],
      reply_status = 500,
      reply_headers = [(''Content-Type'', ''application/json'')]\<rparr>"

definition itemsReply :: "jsval list \<Rightarrow> reply" where
  "itemsReply items =
     \<lparr>reply_body = JObj [(''items'', JArr items)],
      reply_status = 200,
      reply_headers = [(''Content-Type'', ''application/json''),
                       (''Access-Control-Allow-Origin'', ''*''),
                       (''Access-Control-Allow-Methods'', ''GET''),
                       (''Access-Control-Allow-Headers'', ''Content-Type''),
                       (''Cache-Control'', ''max-age=3600'')]\<rparr>"

definition GET_monuments :: "builtins \<Rightarrow> upstream \<Rightarrow> env \<Rightarrow> (request list \<times> reply) option" where
  "GET_monuments B fetch locals =
     (if unset (WEBFLOW_API_TOKEN locals) \<or> unset (MONUMENTS_COLLECTION_ID locals) then
        Some ([], errorReply ''Missing API credentials'')
      else
        (case (MONUMENTS_COLLECTION_ID locals, WEBFLOW_API_TOKEN locals) of
           (Some collectionId, Some apiToken) \<Rightarrow>
             (case fetchAllCollectionItems B fetch collectionId apiToken of
                None \<Rightarrow> None
              | Some (reqs, Inr items) \<Rightarrow> Some (reqs, itemsReply items)
              | Some (reqs, Inl e) \<Rightarrow> Some (reqs, errorReply ''Failed to fetch monuments''))
         | _ \<Rightarrow> Some ([], errorReply ''Missing API credentials'')))"

definition GET_ecosystem :: "builtins \<Rightarrow> upstream \<Rightarrow> env \<Rightarrow> (request list \<times> reply) option" where
  "GET_ecosystem B fetch locals =
     (if unset (WEBFLOW_API_TOKEN locals) \<or> unset (ECOSYSTEM_COLLECTION_ID locals) then
        Some ([], errorReply ''Missing API credentials'')
      else
        (case (ECOSYSTEM_COLLECTION_ID locals, WEBFLOW_API_TOKEN locals) of
           (Some collectionId, Some apiToken) \<Rightarrow>
             (case fetchAllCollectionItems B fetch collectionId apiToken of
                None \<Rightarrow> None
              | Some (reqs, Inr items) \<Rightarrow> Some (reqs, itemsReply items)
              | Some (reqs, Inl e) \<Rightarrow> Some (reqs, errorReply ''Failed to fetch ecosystem''))
         | _ \<Rightarrow> Some ([], errorReply ''Missing API credentials'')))"

section \<open>The client: src/WebflowCMS.js\<close>

subsection \<open>The object and its cache\<close>

record entry =
  entry_data :: "jsval list"
  entry_timestamp :: int

record webflowCMS =
  cms_apiToken :: jsval
  cms_siteId :: jsval
  cms_baseUrl :: string
  cms_cache :: "string \<rightharpoonup> entry"
  cms_cacheExpiry :: int
  cms_pageSize :: nat

text \<open>
  The constructor; \<open>windowToken\<close> and \<open>windowSiteId\<close> are \<^verbatim>\<open>window.WEBFLOW_API_TOKEN\<close> and
  \<^verbatim>\<open>window.WEBFLOW_SITE_ID\<close>. Nothing in the source assigns \<^verbatim>\<open>cacheExpiry\<close> or
  \<^verbatim>\<open>pageSize\<close> again.
\<close>

definition newWebflowCMS :: "jsval \<Rightarrow> jsval \<Rightarrow> jsval \<Rightarrow> jsval \<Rightarrow> webflowCMS" where
  "newWebflowCMS apiToken siteId windowToken windowSiteId =
     \<lparr>cms_apiToken = (if truthy apiToken then apiToken else windowToken),
      cms_siteId = (if truthy siteId then siteId else windowSiteId),
      cms_baseUrl = ''https://api.webflow.com'',
      cms_cache = Map.empty,
      cms_cacheExpiry = 5 * 60 * 1000,
      cms_pageSize = 100\<rparr>"

text \<open>
  \<open>now\<close> is the value of \<^verbatim>\<open>Date.now()\<close> at the call. \<^verbatim>\<open>getCachedData\<close> returns the
  stored array or \<^verbatim>\<open>null\<close> (\<open>None\<close>). The entries hold the arrays the two fetch methods
  store, and an array is truthy even when empty.
\<close>

definition getCachedData :: "webflowCMS \<Rightarrow> int \<Rightarrow> string \<Rightarrow> jsval list option" where
  "getCachedData this now key =
     (case cms_cache this key of
        None \<Rightarrow> None
      | Some cached \<Rightarrow>
          if now - entry_timestamp cached < cms_cacheExpiry this then Some (entry_data cached)
          else None)"

definition setCachedData :: "webflowCMS \<Rightarrow> int \<Rightarrow> string \<Rightarrow> jsval list \<Rightarrow> webflowCMS" where
  "setCachedData this now key items =
     this\<lparr>cms_cache := (cms_cache this)(key \<mapsto> \<lparr>entry_data = items, entry_timestamp = now\<rparr>)\<rparr>"

subsection \<open>fetchAllPages\<close>

definition pageRequest :: "string \<Rightarrow> nat \<Rightarrow> nat \<Rightarrow> request" where
  "pageRequest baseUrl offset limit =
     (let separator = (if includesStr baseUrl ''?'' then ''&'' else ''?'') in
      \<lparr>req_url = baseUrl @ separator @ ''offset='' @ showNat offset @ ''&limit='' @ showNat limit,
       req_headers = []\<rparr>)"

text \<open>Lines 45 to 61: \<^verbatim>\<open>data.items || data\<close>, the array test and the three exits.\<close>

definition itemsOrBody :: "jsval \<Rightarrow> error + jsval" where
  "itemsOrBody body = orE (getProp body ''items'') (Inr body)"

definition afterPageJS :: "builtins \<Rightarrow> nat \<Rightarrow> jsval \<Rightarrow> jsval list \<Rightarrow> error + step" where
  "afterPageJS B limit body allItems =
     bindE (itemsOrBody body) (\<lambda>items.
       case items of
         JArr xs \<Rightarrow>
           if length xs = 0 then Inr (Break allItems)
           else
             let allItems' = allItems @ xs in
             bindE (getProp body ''total'') (\<lambda>totalCount.
             bindE (totalReached B (length allItems') totalCount) (\<lambda>reached.
               if reached then Inr (Break allItems')
               else if length xs < limit then Inr (Break allItems')
               else Inr (Continue allItems')))
       | _ \<Rightarrow> Inr (Break allItems))"

partial_function (option) fetchAllPages_loop ::
  "builtins \<Rightarrow> upstream \<Rightarrow> string \<Rightarrow> nat \<Rightarrow> nat \<Rightarrow> jsval list \<Rightarrow> request list \<Rightarrow> sweep"
where
  "fetchAllPages_loop B fetch baseUrl limit offset allItems reqs =
     (let req = pageRequest baseUrl offset limit; reqs' = reqs @ [req] in
      case fetch req of
        Inl e \<Rightarrow> Some (reqs', Inl e)
      | Inr r \<Rightarrow>
          if \<not> resp_ok r then
            Some (reqs', Inl (Error (''HTTP error! status: '' @ showNat (resp_status r))))
          else
            (case resp_json r of
               Inl e \<Rightarrow> Some (reqs', Inl e)
             | Inr body \<Rightarrow>
                 (case afterPageJS B limit body allItems of
                    Inl e \<Rightarrow> Some (reqs', Inl e)
                  | Inr (Break out) \<Rightarrow> Some (reqs', Inr out)
                  | Inr (Continue allItems') \<Rightarrow>
                      fetchAllPages_loop B fetch baseUrl limit (offset + limit) allItems' reqs')))"

definition fetchAllPages :: "builtins \<Rightarrow> upstream \<Rightarrow> webflowCMS \<Rightarrow> string \<Rightarrow> sweep" where
  "fetchAllPages B fetch this baseUrl =
     fetchAllPages_loop B fetch baseUrl (cms_pageSize this) 0 [] []"

subsection \<open>The normaliser's helpers\<close>

text \<open>
  \<^verbatim>\<open>html.replace(/<[^>]*>/g, '')\<close>: from each \<^verbatim>\<open><\<close> that has a \<^verbatim>\<open>>\<close> somewhere after it,
  everything up to the first such \<^verbatim>\<open>>\<close> is removed, and the scan goes on behind it.
\<close>

function stripTags :: "string \<Rightarrow> string" where
  "stripTags [] = []"
| "stripTags (c # cs) =
     (if c = CHR ''<'' \<and> CHR ''>'' \<in> set cs
      then stripTags (tl (dropWhile (\<lambda>d. d \<noteq> CHR ''>'') cs))
      else c # stripTags cs)"
  by pat_completeness auto
termination
proof (relation "measure length", goal_cases)
  case 1
  show ?case by simp
next
  case (2 c cs)
  have "length (dropWhile (\<lambda>d. d \<noteq> CHR ''>'') cs) \<le> length cs"
    by (rule length_dropWhile_le)
  then show ?case by simp
next
  case (3 c cs)
  show ?case by simp
qed

text \<open>
  \<^verbatim>\<open>stripHtml\<close>: a falsy argument gives the empty string; otherwise \<^verbatim>\<open>html.replace\<close> is
  called, which only a string has.
\<close>

definition stripHtml :: "jsval \<Rightarrow> error + jsval" where
  "stripHtml html =
     (if \<not> truthy html then Inr (JStr [])
      else (case html of
              JStr s \<Rightarrow> Inr (JStr (trim (stripTags s)))
            | _ \<Rightarrow> Inl TypeError))"

definition typeMap :: "(string \<times> jsval) list" where
  "typeMap =
     [(''4366ebc98f6a5310d65de8fa30194fc3'', JStr ''Concept''),
      (''22d312e5d5bdb036a439464ba7db1649'', JStr ''Program''),
      (''6737f113b6ca753ef687b05fe225fb03'', JStr ''Organization''),
      (''1f06ba3b3460d24d4fc5a9514218ab36'', JStr ''Person'')]"

definition categoryMap :: "(string \<times> jsval) list" where
  "categoryMap =
     [(''74d298c5fdf925022955774e728ae1f9'', JStr ''Concepts''),
      (''1c06d86c3ae633dbc20c19e1d1c254e4'', JStr ''Programs''),
      (''422c7e052591ecf49dad28dc44a1a4c5'', JStr ''Organizations''),
      (''51843361dbdbe24b3b64462d465f5a9f'', JStr ''Patrons''),
      (''75a13f4fd7c61b3339c61c0a7612c0d3'', JStr ''Founders'')]"

text \<open>The pair is the object \<^verbatim>\<open>{type, category}\<close> that the method returns.\<close>

definition mapTypeAndCategory :: "builtins \<Rightarrow> jsval \<Rightarrow> jsval \<Rightarrow> error + (jsval \<times> jsval)" where
  "mapTypeAndCategory B typeId categoryId =
     bindE (orE (bracketGet B typeMap typeId) (Inr (JStr ''Unknown''))) (\<lambda>t.
     bindE (orE (bracketGet B categoryMap categoryId) (Inr (JStr ''Unknown''))) (\<lambda>c.
       Inr (t, c)))"

definition commonLocations :: "(string \<times> jsval) list" where
  "commonLocations =
     [(''New York, NY'', JArr [JNum (Fin 40.7128), JNum (Fin (- 74.0060))]),
      (''Washington, DC'', JArr [JNum (Fin 38.9072), JNum (Fin (- 77.0369))]),
      (''South Dakota'', JArr [JNum (Fin 43.9695), JNum (Fin (- 99.9018))]),
      (''California'', JArr [JNum (Fin 36.7783), JNum (Fin (- 119.4179))]),
      (''Texas'', JArr [JNum (Fin 31.9686), JNum (Fin (- 99.9018))]),
      (''Florida'', JArr [JNum (Fin 27.7663), JNum (Fin (- 82.6404))])]"

definition geocodeLocation :: "builtins \<Rightarrow> jsval \<Rightarrow> error + jsval" where
  "geocodeLocation B location = orE (bracketGet B commonLocations location) (Inr JNull)"

definition parseCoordinates :: "builtins \<Rightarrow> jsval \<Rightarrow> error + jsval" where
  "parseCoordinates B locationData =
     (if \<not> truthy locationData then Inr JNull
      else
        (case locationData of
           JArr xs \<Rightarrow>
             if length xs = 2 then Inr locationData else geocodeLocation B locationData
         | JStr s \<Rightarrow>
             if includesStr s '','' then
               (let coords = map (\<lambda>coord. parseFloat B (trim coord)) (splitOn CHR '','' s) in
                if length coords = 2 \<and> coords ! 0 \<noteq> NaN \<and> coords ! 1 \<noteq> NaN
                then Inr (JArr (map JNum coords))
                else geocodeLocation B locationData)
             else geocodeLocation B locationData
         | _ \<Rightarrow> geocodeLocation B locationData))"

definition parseTags :: "jsval \<Rightarrow> jsval" where
  "parseTags tags =
     (if \<not> truthy tags then JArr []
      else
        (case tags of
           JArr xs \<Rightarrow> tags
         | JStr s \<Rightarrow> JArr (map JStr (filter (\<lambda>tag. tag \<noteq> []) (map trim (splitOn CHR '','' s))))
         | _ \<Rightarrow> JArr []))"

subsection \<open>fetchMonuments and fetchEcosystem\<close>

text \<open>
  The arrow functions handed to \<^verbatim>\<open>items.map\<close> (lines 84 to 101 and 126 to 141): the
  normalisation of one raw item. The properties of the object literal are evaluated in
  the order written.
\<close>

definition monumentItem :: "builtins \<Rightarrow> jsval \<Rightarrow> error + jsval" where
  "monumentItem B item =
     bindE (orE (getProp item ''fieldData'') (Inr item)) (\<lambda>fieldData.
     bindE (orE (getProp item ''id'') (getProp item ''_id'')) (\<lambda>itemId.
     bindE (orE (getProp fieldData ''name'') (getProp fieldData ''Name'')) (\<lambda>name.
     bindE (orE (getProp fieldData ''status'') (getProp fieldData ''Status'')) (\<lambda>status.
     bindE (orE (getProp fieldData ''location'') (getProp fieldData ''Location'')) (\<lambda>location.
     bindE (bindE (orE (orE (getProp fieldData ''locationcoords'')
                            (getProp fieldData ''coordinates''))
                       (getProp fieldData ''Location''))
              (parseCoordinates B)) (\<lambda>coordinates.
     bindE (bindE (orE (orE (getProp fieldData ''description'')
                            (getProp fieldData ''Description''))
                       (Inr (JStr [])))
              stripHtml) (\<lambda>description.
     bindE (orE (getProp fieldData ''year'') (getProp fieldData ''Year'')) (\<lambda>year.
     bindE (orE (getProp fieldData ''height'') (getProp fieldData ''Height'')) (\<lambda>height.
     bindE (orE (getProp fieldData ''built-by'') (getProp fieldData ''Built By'')) (\<lambda>builtBy.
     bindE (orE (getProp fieldData ''funded-by'') (getProp fieldData ''Funded By'')) (\<lambda>fundedBy.
     bindE (orE (getProp fieldData ''conceptualized-by'')
                (getProp fieldData ''Conceptualized By'')) (\<lambda>conceptualizedBy.
     bindE (orE (getProp fieldData ''tags'') (getProp fieldData ''Tags'')) (\<lambda>tags.
     bindE (orE (orE (getProp fieldData ''link-2'') (getProp fieldData ''link''))
                (getProp fieldData ''Link'')) (\<lambda>link.
       Inr (JObj [(''id'', itemId),
                  (''name'', name),
                  (''status'', status),
                  (''location'', location),
                  (''coordinates'', coordinates),
                  (''description'', description),
                  (''year'', year),
                  (''height'', height),
                  (''builtBy'', builtBy),
                  (''fundedBy'', fundedBy),
                  (''conceptualizedBy'', conceptualizedBy),
                  (''tags'', parseTags tags),
                  (''link'', link)])))))))))))))))"

definition ecosystemItem :: "builtins \<Rightarrow> jsval \<Rightarrow> error + jsval" where
  "ecosystemItem B item =
     bindE (orE (getProp item ''fieldData'') (Inr item)) (\<lambda>fieldData.
     bindE (getProp fieldData ''type'') (\<lambda>typeId.
     bindE (getProp fieldData ''category'') (\<lambda>categoryId.
     bindE (mapTypeAndCategory B typeId categoryId) (\<lambda>mappedTypes.
     bindE (orE (getProp item ''id'') (getProp item ''_id'')) (\<lambda>itemId.
     bindE (orE (getProp fieldData ''name'') (getProp fieldData ''Name'')) (\<lambda>name.
     bindE (orE (getProp fieldData ''association'')
                (getProp fieldData ''Association'')) (\<lambda>association.
     bindE (orE (getProp fieldData ''location'') (getProp fieldData ''Location'')) (\<lambda>location.
     bindE (orE (getProp fieldData ''website'') (getProp fieldData ''Website'')) (\<lambda>website.
     bindE (bindE (orE (orE (orE (getProp fieldData ''description'')
                                 (getProp fieldData ''Description''))
                            (getProp fieldData ''notes''))
                       (Inr (JStr [])))
              stripHtml) (\<lambda>description.
     bindE (orE (getProp fieldData ''tags'') (getProp fieldData ''Tags'')) (\<lambda>tags.
       Inr (JObj [(''id'', itemId),
                  (''name'', name),
                  (''type'', fst mappedTypes),
                  (''category'', snd mappedTypes),
                  (''association'', association),
                  (''location'', location),
                  (''website'', website),
                  (''description'', description),
                  (''tags'', parseTags tags)]))))))))))))"

definition monumentsUrl :: string where
  "monumentsUrl =
     ''https://mm1-fe52fb-7bc93d167bfbe6de86cc672332aa.webflow.io/api/api/monuments.json''"

definition ecosystemUrl :: string where
  "ecosystemUrl =
     ''https://mm1-fe52fb-7bc93d167bfbe6de86cc672332aa.webflow.io/api/api/ecosystem.json''"

text \<open>
  The two methods. \<open>nowRead\<close> is \<^verbatim>\<open>Date.now()\<close> inside \<^verbatim>\<open>getCachedData\<close>, \<open>nowWrite\<close> the
  later \<^verbatim>\<open>Date.now()\<close> inside \<^verbatim>\<open>setCachedData\<close>. The result is the requests issued, what
  the promise settles to (\<open>Inl\<close>: it rejects) and the object afterwards; \<open>None\<close> when the
  sweep never returns. Everything after the cache lookup stands inside \<^verbatim>\<open>try\<close>, whose
  \<^verbatim>\<open>catch\<close> returns \<^verbatim>\<open>[]\<close>.
\<close>

type_synonym fetched = "(request list \<times> (error + jsval list) \<times> webflowCMS) option"

definition fetchMonuments :: "builtins \<Rightarrow> upstream \<Rightarrow> int \<Rightarrow> int \<Rightarrow> webflowCMS \<Rightarrow> fetched" where
  "fetchMonuments B fetch nowRead nowWrite this =
     (case getCachedData this nowRead ''monuments'' of
        Some cachedData \<Rightarrow> Some ([], Inr cachedData, this)
      | None \<Rightarrow>
          (case fetchAllPages B fetch this monumentsUrl of
             None \<Rightarrow> None
           | Some (reqs, Inl e) \<Rightarrow> Some (reqs, Inr [], this)
           | Some (reqs, Inr items) \<Rightarrow>
               (case mapE (monumentItem B) items of
                  Inl e \<Rightarrow> Some (reqs, Inr [], this)
                | Inr processedData \<Rightarrow>
                    Some (reqs, Inr processedData,
                          setCachedData this nowWrite ''monuments'' processedData))))"

definition fetchEcosystem :: "builtins \<Rightarrow> upstream \<Rightarrow> int \<Rightarrow> int \<Rightarrow> webflowCMS \<Rightarrow> fetched" where
  "fetchEcosystem B fetch nowRead nowWrite this =
     (case getCachedData this nowRead ''ecosystem'' of
        Some cachedData \<Rightarrow> Some ([], Inr cachedData, this)
      | None \<Rightarrow>
          (case fetchAllPages B fetch this ecosystemUrl of
             None \<Rightarrow> None
           | Some (reqs, Inl e) \<Rightarrow> Some (reqs, Inr [], this)
           | Some (reqs, Inr items) \<Rightarrow>
               (case mapE (ecosystemItem B) items of
                  Inl e \<Rightarrow> Some (reqs, Inr [], this)
                | Inr processedData \<Rightarrow>
                    Some (reqs, Inr processedData,
                          setCachedData this nowWrite ''ecosystem'' processedData))))"

section \<open>Vocabulary of the statements\<close>

text \<open>
  \<open>servesPage fetch req body\<close>: the upstream answers \<open>req\<close> with a success status and a
  body that parses to \<open>body\<close>.
\<close>

definition servesPage :: "upstream \<Rightarrow> request \<Rightarrow> jsval \<Rightarrow> bool" where
  "servesPage fetch req body =
     (case fetch req of Inl e \<Rightarrow> False | Inr r \<Rightarrow> resp_ok r \<and> resp_json r = Inr body)"

text \<open>
  The platform functions on the arguments the examples below hand to them:
  \<^verbatim>\<open>parseFloat("40.5")\<close> and \<^verbatim>\<open>parseFloat("-74.25")\<close> are exact in binary, and a string
  that starts with no number parses to \<^verbatim>\<open>NaN\<close>. The examples neither print a number nor
  convert a string with \<^verbatim>\<open>ToNumber\<close>.
\<close>

definition examplePlatform :: builtins where
  "examplePlatform =
     \<lparr>parseFloat = (\<lambda>s. if s = ''40.5'' then Fin 40.5
                        else if s = ''-74.25'' then Fin (- 74.25) else NaN),
      numberToString = (\<lambda>n. ''NaN''),
      stringToNumber = (\<lambda>s. NaN)\<rparr>"

text \<open>Responses and pages for the examples.\<close>

definition okResponse :: "jsval \<Rightarrow> error + response" where
  "okResponse body =
     Inr \<lparr>resp_ok = True, resp_status = 200, resp_text = [], resp_json = Inr body\<rparr>"

definition failedResponse :: "nat \<Rightarrow> string \<Rightarrow> error + response" where
  "failedResponse code txt =
     Inr \<lparr>resp_ok = False, resp_status = code, resp_text = txt, resp_json = Inl SyntaxError\<rparr>"

definition exampleItems :: "nat \<Rightarrow> nat \<Rightarrow> jsval list" where
  "exampleItems a b = map (\<lambda>i. JObj [(''id'', JNum (Fin (of_nat i)))]) [a..<b]"

text \<open>
  A body that carries only an item list, and a mock upstream of three pages of 100, 100
  and 37 items without a total; \<open>mk\<close> builds the request for an offset.
\<close>

definition itemsPage :: "jsval list \<Rightarrow> jsval" where
  "itemsPage xs = JObj [(''items'', JArr xs)]"

definition threePages :: "(nat \<Rightarrow> request) \<Rightarrow> upstream" where
  "threePages mk =
     (\<lambda>req. if req = mk 0 then okResponse (itemsPage (exampleItems 0 100))
            else if req = mk 100 then okResponse (itemsPage (exampleItems 100 200))
            else if req = mk 200 then okResponse (itemsPage (exampleItems 200 237))
            else Inl TypeError)"

text \<open>
  Clients for the examples: one just constructed, and one that holds an entry for
  \<^verbatim>\<open>monuments\<close> stored at time 0. A raw item with its normal form, a raw item whose
  description is a number, and an environment that lacks the identifier of the ecosystem
  collection.
\<close>

definition freshClient :: webflowCMS where
  "freshClient = newWebflowCMS JNull JNull JUndefined JUndefined"

definition staleClient :: webflowCMS where
  "staleClient =
     setCachedData (newWebflowCMS JNull JNull JUndefined JUndefined) 0 ''monuments''
       [JObj [(''id'', JStr ''m1'')]]"

definition libertyItem :: jsval where
  "libertyItem =
     JObj [(''id'', JStr ''m1''),
           (''fieldData'',
              JObj [(''name'', JStr ''Liberty''),
                    (''locationcoords'', JStr ''40.5,-74.25''),
                    (''description'', JStr ''<p>Hi <b>there</b></p>''),
                    (''tags'', JStr ''a, b ,c'')])]"

definition libertyMonument :: jsval where
  "libertyMonument =
     JObj [(''id'', JStr ''m1''),
           (''name'', JStr ''Liberty''),
           (''status'', JUndefined),
           (''location'', JUndefined),
           (''coordinates'', JArr [JNum (Fin 40.5), JNum (Fin (- 74.25))]),
           (''description'', JStr ''Hi there''),
           (''year'', JUndefined),
           (''height'', JUndefined),
           (''builtBy'', JUndefined),
           (''fundedBy'', JUndefined),
           (''conceptualizedBy'', JUndefined),
           (''tags'', JArr [JStr ''a'', JStr ''b'', JStr ''c'']),
           (''link'', JUndefined)]"

definition brokenItem :: jsval where
  "brokenItem =
     JObj [(''id'', JStr ''m2''),
           (''fieldData'', JObj [(''name'', JStr ''Arch''), (''description'', JNum (Fin 42))])]"

definition exampleEnv :: env where
  "exampleEnv =
     \<lparr>WEBFLOW_API_TOKEN = Some ''tok'',
      MONUMENTS_COLLECTION_ID = Some ''col'',
      ECOSYSTEM_COLLECTION_ID = None\<rparr>"

text \<open>The values of the three CORS headers in a list of headers.\<close>

definition corsHeaders :: "(string \<times> string) list \<Rightarrow> string option list" where
  "corsHeaders hs =
     map (map_of hs)
       [''Access-Control-Allow-Origin'', ''Access-Control-Allow-Methods'',
        ''Access-Control-Allow-Headers'']"

text \<open>
  Where a total can stand in a body: under \<^verbatim>\<open>pagination\<close>, or at the top level. Both
  read a plain object by its own keys; anything else has no total.
\<close>

definition totalUnderPagination :: "jsval \<Rightarrow> jsval" where
  "totalUnderPagination body =
     (case body of
        JObj kvs \<Rightarrow>
          (case map_of kvs ''pagination'' of
             Some (JObj pg) \<Rightarrow> (case map_of pg ''total'' of Some t \<Rightarrow> t | None \<Rightarrow> JUndefined)
           | _ \<Rightarrow> JUndefined)
      | _ \<Rightarrow> JUndefined)"

definition topLevelTotal :: "jsval \<Rightarrow> jsval" where
  "topLevelTotal body =
     (case body of
        JObj kvs \<Rightarrow> (case map_of kvs ''total'' of Some t \<Rightarrow> t | None \<Rightarrow> JUndefined)
      | _ \<Rightarrow> JUndefined)"

text \<open>
  Two full pages of one hundred items that report a total of one hundred, the first under
  \<^verbatim>\<open>pagination\<close> and the second at the top level, and an upstream that answers one
  request with a given body and every other request with an empty page.
\<close>

definition metadataTotalPage :: jsval where
  "metadataTotalPage =
     JObj [(''items'', JArr (exampleItems 0 100)),
           (''pagination'', JObj [(''total'', JNum (Fin 100))])]"

definition topTotalPage :: jsval where
  "topTotalPage =
     JObj [(''items'', JArr (exampleItems 0 100)),
           (''total'', JNum (Fin 100))]"

definition thenEmpty :: "request \<Rightarrow> jsval \<Rightarrow> upstream" where
  "thenEmpty first body =
     (\<lambda>req. if req = first then okResponse body else okResponse (itemsPage []))"

text \<open>Reading a decimal numeral back, the inverse of \<open>showNat\<close>.\<close>

definition readNat :: "string \<Rightarrow> nat" where
  "readNat s = foldl (\<lambda>a c. 10 * a + (of_char c - 48)) 0 s"

section \<open>Basic facts\<close>

lemma bindE_Inl [simp]: "bindE (Inl e) f = Inl e"
  and bindE_Inr [simp]: "bindE (Inr x) f = f x"
  by (simp_all add: bindE_def)

lemma orE_Inl [simp]: "orE (Inl e) b = Inl e"
  and orE_Inr [simp]: "orE (Inr v) b = (if truthy v then Inr v else b)"
  by (simp_all add: orE_def)

text \<open>Decimal digits of a numeral, for evaluation.\<close>

lemma showNat_numeral [simp]:
  "showNat (numeral k) =
     (if (numeral k :: nat) < 10 then [''0123456789'' ! numeral k]
      else showNat (numeral k div 10) @ [''0123456789'' ! (numeral k mod 10)])"
  by (rule showNat.simps)

lemma showNat_0 [simp]: "showNat 0 = ''0''"
  by (simp add: showNat.simps)

lemma includesStr_char: "includesStr s [c] = (c \<in> set s)"
  by (induction s) auto

subsection \<open>split and trim\<close>

text \<open>
  The pieces of a split hold no separator, and putting the separator before each piece
  gives the string back: \<open>splitOn\<close> is \<^verbatim>\<open>split\<close>.
\<close>

lemma splitOn_nonempty: "splitOn c s \<noteq> []"
  by (induction s) (auto split: list.splits)

lemma splitOn_pieces: "p \<in> set (splitOn c s) \<Longrightarrow> c \<notin> set p"
  by (induction s arbitrary: p) (auto split: list.splits if_splits)

lemma splitOn_join: "concat (map (\<lambda>p. c # p) (splitOn c s)) = c # s"
  by (induction s) (auto split: list.splits simp: splitOn_nonempty)

lemma splitOn_no_sep: "c \<notin> set s \<Longrightarrow> splitOn c s = [s]"
  by (induction s) (auto split: list.splits)

lemma splitOn_append: "c \<notin> set a \<Longrightarrow> splitOn c (a @ c # b) = a # splitOn c b"
  by (induction a) (auto split: list.splits)

lemma splitOn_pair: "c \<notin> set a \<Longrightarrow> c \<notin> set b \<Longrightarrow> splitOn c (a @ c # b) = [a, b]"
  by (simp add: splitOn_append splitOn_no_sep)

lemma splitOn_two:
  assumes "length (splitOn c s) = 2"
  shows "\<exists>a b. s = a @ c # b \<and> c \<notin> set a \<and> c \<notin> set b \<and> splitOn c s = [a, b]"
proof -
  from assms obtain a b where ab: "splitOn c s = [a, b]"
    by (cases "splitOn c s"; cases "tl (splitOn c s)") auto
  have "c # s = concat (map (\<lambda>p. c # p) [a, b])"
    using splitOn_join [of c s] ab by simp
  then have "s = a @ c # b"
    by simp
  moreover have "c \<notin> set a" "c \<notin> set b"
    using splitOn_pieces [of _ c s] ab by auto
  ultimately show ?thesis
    using ab by blast
qed

text \<open>
  A trimmed string is the string without a run of white space at each end, and it
  neither starts nor ends with white space.
\<close>

lemma rev_dropWhile_takeWhile:
  "xs = rev (dropWhile P (rev xs)) @ rev (takeWhile P (rev xs))"
  by (metis rev_append rev_rev_ident takeWhile_dropWhile_id)

lemma trim_split:
  "s = takeWhile isWhiteSpace s @ trim s
         @ rev (takeWhile isWhiteSpace (rev (dropWhile isWhiteSpace s)))"
proof -
  have "dropWhile isWhiteSpace s =
          trim s @ rev (takeWhile isWhiteSpace (rev (dropWhile isWhiteSpace s)))"
    unfolding trim_def by (rule rev_dropWhile_takeWhile)
  then have "takeWhile isWhiteSpace s @ dropWhile isWhiteSpace s =
          takeWhile isWhiteSpace s @ trim s
            @ rev (takeWhile isWhiteSpace (rev (dropWhile isWhiteSpace s)))"
    by (rule arg_cong)
  then show ?thesis
    by (simp only: takeWhile_dropWhile_id)
qed

lemma trim_ends:
  assumes "trim s \<noteq> []"
  shows "\<not> isWhiteSpace (hd (trim s))" and "\<not> isWhiteSpace (last (trim s))"
proof -
  let ?m = "dropWhile isWhiteSpace s"
  let ?d = "dropWhile isWhiteSpace (rev ?m)"
  have d: "?d \<noteq> []"
    using assms by (simp add: trim_def)
  then have "\<not> isWhiteSpace (hd ?d)"
    by (rule hd_dropWhile)
  then show "\<not> isWhiteSpace (last (trim s))"
    using d by (simp add: trim_def last_rev)
  have m: "?m = trim s @ rev (takeWhile isWhiteSpace (rev ?m))"
    unfolding trim_def by (rule rev_dropWhile_takeWhile)
  then have "?m \<noteq> []"
    using assms by (metis append_is_Nil_conv)
  then have "\<not> isWhiteSpace (hd ?m)"
    by (rule hd_dropWhile)
  moreover have "hd ?m = hd (trim s)"
    using m assms by (metis hd_append2)
  ultimately show "\<not> isWhiteSpace (hd (trim s))"
    by simp
qed

lemma showNat_1 [simp]: "showNat (Suc 0) = ''1''"
  by (simp add: showNat.simps)

subsection \<open>includes\<close>

lemma startsWith_append [simp]: "startsWith (b @ c) b"
  by (induction b) auto

lemma includesStr_prefix: "includesStr (b @ c) b"
proof (cases "b @ c")
  case Nil
  then show ?thesis by simp
next
  case (Cons x xs)
  have "startsWith (b @ c) b" by simp
  then show ?thesis unfolding Cons by simp
qed

lemma includesStr_append: "includesStr (a @ b @ c) b"
proof (induction a)
  case Nil
  show ?case by (simp add: includesStr_prefix)
next
  case (Cons x a)
  then show ?case by simp
qed

section \<open>One turn of each loop\<close>

text \<open>
  The loops are tail recursive: a turn either ends the sweep or hands over to the loop at
  the next offset. The lemmas below unfold one turn for each way it can go.
\<close>

lemma servesPageD:
  "servesPage fetch req body \<Longrightarrow> \<exists>r. fetch req = Inr r \<and> resp_ok r \<and> resp_json r = Inr body"
  by (auto simp: servesPage_def split: sum.splits)

lemma servesPage_ok [simp]: "servesPage (\<lambda>req. okResponse body) req body' = (body = body')"
  by (auto simp: servesPage_def okResponse_def)

lemma exampleItems_length [simp]: "length (exampleItems a b) = b - a"
  by (simp add: exampleItems_def)

lemma totalReached_absent [simp]:
  "totalReached B n JUndefined = Inr False" "totalReached B n JNull = Inr False"
  by (simp_all add: totalReached_def nullish_def)

lemma totalReached_count [simp]:
  "totalReached B n (JNum (Fin q)) = Inr (q \<le> of_nat n)"
  by (simp add: totalReached_def nullish_def jsGe_def not_less)

lemma afterPage_array:
  assumes "pageItems body = Inr (JArr xs)" "paginationTotal body = Inr t"
  shows "afterPage B body acc =
     (if xs = [] then Inr (Break acc)
      else bindE (totalReached B (length (acc @ xs)) t) (\<lambda>reached.
             if reached then Inr (Break (acc @ xs))
             else if length xs < 100 then Inr (Break (acc @ xs))
             else Inr (Continue (acc @ xs))))"
  using assms by (simp add: afterPage_def jsLt_def PAGE_SIZE_def Let_def cong: if_cong)

lemma afterPageJS_array:
  assumes "itemsOrBody body = Inr (JArr xs)" "getProp body ''total'' = Inr t"
  shows "afterPageJS B limit body acc =
     (if xs = [] then Inr (Break acc)
      else bindE (totalReached B (length (acc @ xs)) t) (\<lambda>reached.
             if reached then Inr (Break (acc @ xs))
             else if length xs < limit then Inr (Break (acc @ xs))
             else Inr (Continue (acc @ xs))))"
  using assms by (simp add: afterPageJS_def Let_def)

lemma afterPageJS_not_array:
  assumes "itemsOrBody body = Inr v" "\<forall>xs. v \<noteq> JArr xs"
  shows "afterPageJS B limit body acc = Inr (Break acc)"
  using assms by (cases v) (simp_all add: afterPageJS_def)

lemma loop_continue:
  assumes "servesPage fetch (itemsRequest cid tok off) body"
    and "afterPage B body acc = Inr (Continue acc')"
  shows "fetchAllCollectionItems_loop B fetch cid tok off acc reqs =
         fetchAllCollectionItems_loop B fetch cid tok (off + 100) acc' (reqs @ [itemsRequest cid tok off])"
  proof -
  from assms(1) obtain r where "fetch (itemsRequest cid tok off) = Inr r" "resp_ok r" "resp_json r = Inr body"
    by (auto dest: servesPageD)
  with assms(2) show ?thesis
    by (subst fetchAllCollectionItems_loop.simps) (simp add: Let_def PAGE_SIZE_def)
qed

lemma loop_break:
  assumes "servesPage fetch (itemsRequest cid tok off) body"
    and "afterPage B body acc = Inr (Break out)"
  shows "fetchAllCollectionItems_loop B fetch cid tok off acc reqs =
         Some (reqs @ [itemsRequest cid tok off], Inr out)"
  proof -
  from assms(1) obtain r where "fetch (itemsRequest cid tok off) = Inr r" "resp_ok r" "resp_json r = Inr body"
    by (auto dest: servesPageD)
  with assms(2) show ?thesis
    by (subst fetchAllCollectionItems_loop.simps) (simp add: Let_def)
qed

lemma loop_throw:
  assumes "servesPage fetch (itemsRequest cid tok off) body"
    and "afterPage B body acc = Inl e"
  shows "fetchAllCollectionItems_loop B fetch cid tok off acc reqs =
         Some (reqs @ [itemsRequest cid tok off], Inl e)"
  proof -
  from assms(1) obtain r where "fetch (itemsRequest cid tok off) = Inr r" "resp_ok r" "resp_json r = Inr body"
    by (auto dest: servesPageD)
  with assms(2) show ?thesis
    by (subst fetchAllCollectionItems_loop.simps) (simp add: Let_def)
qed

lemma loop_http_error:
  assumes "fetch (itemsRequest cid tok off) = Inr r" "\<not> resp_ok r"
  shows "fetchAllCollectionItems_loop B fetch cid tok off acc reqs =
         Some (reqs @ [itemsRequest cid tok off],
               Inl (Error (''Webflow API '' @ showNat (resp_status r) @ '': '' @ resp_text r)))"
  using assms
  by (subst fetchAllCollectionItems_loop.simps) (simp add: Let_def)

lemma loop_rejected:
  assumes "fetch (itemsRequest cid tok off) = Inl e"
  shows "fetchAllCollectionItems_loop B fetch cid tok off acc reqs =
         Some (reqs @ [itemsRequest cid tok off], Inl e)"
  using assms
  by (subst fetchAllCollectionItems_loop.simps) (simp add: Let_def)

lemma loop_bad_json:
  assumes "fetch (itemsRequest cid tok off) = Inr r" "resp_ok r" "resp_json r = Inl e"
  shows "fetchAllCollectionItems_loop B fetch cid tok off acc reqs =
         Some (reqs @ [itemsRequest cid tok off], Inl e)"
  using assms
  by (subst fetchAllCollectionItems_loop.simps) (simp add: Let_def)

lemma loop_prefix:
  assumes "\<And>k. k < n \<Longrightarrow> servesPage fetch (itemsRequest cid tok (off + 100 * k)) (body k)"
    and "\<And>k. k < n \<Longrightarrow> afterPage B (body k) (acc @ concat (map items [0..<k]))
                            = Inr (Continue (acc @ concat (map items [0..<Suc k])))"
  shows "fetchAllCollectionItems_loop B fetch cid tok off acc reqs =
         fetchAllCollectionItems_loop B fetch cid tok (off + 100 * n)
           (acc @ concat (map items [0..<n]))
           (reqs @ map (\<lambda>k. itemsRequest cid tok (off + 100 * k)) [0..<n])"
  using assms
proof (induction n)
  case 0
  show ?case by simp
next
  case (Suc n)
  have "fetchAllCollectionItems_loop B fetch cid tok off acc reqs =
        fetchAllCollectionItems_loop B fetch cid tok (off + 100 * n)
           (acc @ concat (map items [0..<n]))
           (reqs @ map (\<lambda>k. itemsRequest cid tok (off + 100 * k)) [0..<n])"
    using Suc.prems by (intro Suc.IH) simp_all
  also have "\<dots> = fetchAllCollectionItems_loop B fetch cid tok (off + 100 * n + 100)
           (acc @ concat (map items [0..<Suc n]))
           ((reqs @ map (\<lambda>k. itemsRequest cid tok (off + 100 * k)) [0..<n])
              @ [itemsRequest cid tok (off + 100 * n)])"
    using Suc.prems(1) [of n] Suc.prems(2) [of n] by (intro loop_continue) simp_all
  finally show ?case by (simp add: ac_simps)
qed

lemma loopJS_continue:
  assumes "servesPage fetch (pageRequest base off lmt) body"
    and "afterPageJS B lmt body acc = Inr (Continue acc')"
  shows "fetchAllPages_loop B fetch base lmt off acc reqs =
         fetchAllPages_loop B fetch base lmt (off + lmt) acc' (reqs @ [pageRequest base off lmt])"
proof -
  from assms(1) obtain r where "fetch (pageRequest base off lmt) = Inr r" "resp_ok r" "resp_json r = Inr body"
    by (auto dest: servesPageD)
  with assms(2) show ?thesis
    by (subst fetchAllPages_loop.simps) (simp add: Let_def)
qed

lemma loopJS_break:
  assumes "servesPage fetch (pageRequest base off lmt) body"
    and "afterPageJS B lmt body acc = Inr (Break out)"
  shows "fetchAllPages_loop B fetch base lmt off acc reqs =
         Some (reqs @ [pageRequest base off lmt], Inr out)"
proof -
  from assms(1) obtain r where "fetch (pageRequest base off lmt) = Inr r" "resp_ok r" "resp_json r = Inr body"
    by (auto dest: servesPageD)
  with assms(2) show ?thesis
    by (subst fetchAllPages_loop.simps) (simp add: Let_def)
qed

lemma loopJS_throw:
  assumes "servesPage fetch (pageRequest base off lmt) body"
    and "afterPageJS B lmt body acc = Inl e"
  shows "fetchAllPages_loop B fetch base lmt off acc reqs =
         Some (reqs @ [pageRequest base off lmt], Inl e)"
proof -
  from assms(1) obtain r where "fetch (pageRequest base off lmt) = Inr r" "resp_ok r" "resp_json r = Inr body"
    by (auto dest: servesPageD)
  with assms(2) show ?thesis
    by (subst fetchAllPages_loop.simps) (simp add: Let_def)
qed

lemma loopJS_http_error:
  assumes "fetch (pageRequest base off lmt) = Inr r" "\<not> resp_ok r"
  shows "fetchAllPages_loop B fetch base lmt off acc reqs =
         Some (reqs @ [pageRequest base off lmt],
               Inl (Error (''HTTP error! status: '' @ showNat (resp_status r))))"
  using assms
  by (subst fetchAllPages_loop.simps) (simp add: Let_def)

lemma loopJS_rejected:
  assumes "fetch (pageRequest base off lmt) = Inl e"
  shows "fetchAllPages_loop B fetch base lmt off acc reqs =
         Some (reqs @ [pageRequest base off lmt], Inl e)"
  using assms
  by (subst fetchAllPages_loop.simps) (simp add: Let_def)

lemma loopJS_bad_json:
  assumes "fetch (pageRequest base off lmt) = Inr r" "resp_ok r" "resp_json r = Inl e"
  shows "fetchAllPages_loop B fetch base lmt off acc reqs =
         Some (reqs @ [pageRequest base off lmt], Inl e)"
  using assms
  by (subst fetchAllPages_loop.simps) (simp add: Let_def)

lemma loopJS_prefix:
  assumes "\<And>k. k < n \<Longrightarrow> servesPage fetch (pageRequest base (off + lmt * k) lmt) (body k)"
    and "\<And>k. k < n \<Longrightarrow> afterPageJS B lmt (body k) (acc @ concat (map items [0..<k]))
                            = Inr (Continue (acc @ concat (map items [0..<Suc k])))"
  shows "fetchAllPages_loop B fetch base lmt off acc reqs =
         fetchAllPages_loop B fetch base lmt (off + lmt * n)
           (acc @ concat (map items [0..<n]))
           (reqs @ map (\<lambda>k. pageRequest base (off + lmt * k) lmt) [0..<n])"
  using assms
proof (induction n)
  case 0
  show ?case by simp
next
  case (Suc n)
  have "fetchAllPages_loop B fetch base lmt off acc reqs =
        fetchAllPages_loop B fetch base lmt (off + lmt * n)
           (acc @ concat (map items [0..<n]))
           (reqs @ map (\<lambda>k. pageRequest base (off + lmt * k) lmt) [0..<n])"
    using Suc.prems by (intro Suc.IH) simp_all
  also have "\<dots> = fetchAllPages_loop B fetch base lmt (off + lmt * n + lmt)
           (acc @ concat (map items [0..<Suc n]))
           ((reqs @ map (\<lambda>k. pageRequest base (off + lmt * k) lmt) [0..<n])
              @ [pageRequest base (off + lmt * n) lmt])"
    using Suc.prems(1) [of n] Suc.prems(2) [of n] by (intro loopJS_continue) simp_all
  finally show ?case by (simp add: ac_simps)
qed

subsection \<open>Where the total is read, and which request comes first\<close>

lemma paginationTotal_located:
  assumes "\<not> nullish body"
  shows "paginationTotal body = Inr (totalUnderPagination body)"
proof (cases body)
  case (JObj kvs)
  show ?thesis
  proof (cases "map_of kvs ''pagination''")
    case None
    with JObj show ?thesis
      by (simp add: paginationTotal_def totalUnderPagination_def objGet_def
            objectPrototypeKeys_def nullish_def)
  next
    case (Some p)
    with JObj show ?thesis
      by (cases p)
         (simp_all add: paginationTotal_def totalUnderPagination_def objGet_def
            objectPrototypeKeys_def nullish_def split: option.splits)
  qed
qed (use assms in \<open>simp_all add: paginationTotal_def totalUnderPagination_def nullish_def\<close>)

lemma total_located:
  assumes "\<not> nullish body"
  shows "getProp body ''total'' = Inr (topLevelTotal body)"
  using assms
  by (cases body)
     (simp_all add: topLevelTotal_def objGet_def objectPrototypeKeys_def nullish_def
        split: option.splits)

lemma pageItems_not_nullish: "pageItems body = Inr v \<Longrightarrow> \<not> nullish body"
  by (cases body) (simp_all add: pageItems_def nullish_def)

lemma itemsOrBody_not_nullish: "itemsOrBody body = Inr v \<Longrightarrow> \<not> nullish body"
  by (cases body) (auto simp: itemsOrBody_def nullish_def)

lemma digit_read: "k < 10 \<Longrightarrow> (of_char (''0123456789'' ! k) :: nat) - 48 = k"
proof -
  assume "k < 10"
  then have "k \<in> {0, 1, 2, 3, 4, 5, 6, 7, 8, 9}" by auto
  then show ?thesis
    by (elim insertE) (simp_all add: nth_Cons')
qed

lemma readNat_snoc: "readNat (s @ [c]) = 10 * readNat s + (of_char c - 48)"
  by (simp add: readNat_def)

lemma readNat_showNat: "readNat (showNat n) = n"
proof (induction n rule: showNat.induct)
  case (1 n)
  show ?case
  proof (cases "n < 10")
    case True
    then show ?thesis
      by (subst showNat.simps) (simp add: readNat_def digit_read)
  next
    case False
    then have ih: "readNat (showNat (n div 10)) = n div 10"
      using 1 by simp
    have "readNat (showNat n) = 10 * readNat (showNat (n div 10))
            + (of_char (''0123456789'' ! (n mod 10)) - 48)"
      using False by (subst showNat.simps) (simp add: readNat_snoc)
    then show ?thesis
      using ih digit_read [of "n mod 10"] by simp
  qed
qed

lemma showNat_inj: "showNat m = showNat n \<Longrightarrow> m = n"
  by (metis readNat_showNat)

lemma loop_first_request:
  assumes "fetchAllCollectionItems_loop B fetch cid tok off acc reqs = Some y"
  shows "\<exists>more. fst y = reqs @ itemsRequest cid tok off # more"
proof (rule fetchAllCollectionItems_loop.raw_induct
    [where P = "\<lambda>B fetch cid tok off acc reqs y.
                  \<exists>more. fst y = reqs @ itemsRequest cid tok off # more", OF _ assms],
    goal_cases)
  case (1 loop B fetch cid tok off acc reqs y)
  from 1(2) show ?case
    by (auto simp: Let_def split: sum.splits if_splits step.splits dest!: 1(1))
qed

lemma loopJS_first_request:
  assumes "fetchAllPages_loop B fetch baseUrl lmt off acc reqs = Some y"
  shows "\<exists>more. fst y = reqs @ pageRequest baseUrl off lmt # more"
proof (rule fetchAllPages_loop.raw_induct
    [where P = "\<lambda>B fetch baseUrl lmt off acc reqs y.
                  \<exists>more. fst y = reqs @ pageRequest baseUrl off lmt # more", OF _ assms],
    goal_cases)
  case (1 loop B fetch baseUrl lmt off acc reqs y)
  from 1(2) show ?case
    by (auto simp: Let_def split: sum.splits if_splits step.splits dest!: 1(1))
qed

section \<open>Whole sweeps\<close>

text \<open>
  A sweep that receives \<open>n\<close> pages which do not end it is, after \<open>n\<close> requests at the
  offsets \<open>0\<close>, \<open>100\<close>, ..., the loop at offset \<open>100 * n\<close> holding the items of these
  pages in order. What the next response is decides the outcome.
\<close>

lemma sweep_pages:
  assumes served: "\<And>k. k \<le> n \<Longrightarrow> servesPage fetch (itemsRequest cid tok (100 * k)) (body k)"
    and its: "\<And>k. k \<le> n \<Longrightarrow> pageItems (body k) = Inr (JArr (items k))"
    and tots: "\<And>k. k \<le> n \<Longrightarrow> paginationTotal (body k) = Inr (tot k)"
    and go: "\<And>k. k < n \<Longrightarrow> \<not> length (items k) < 100
               \<and> totalReached B (length (concat (map items [0..<Suc k]))) (tot k) = Inr False"
  shows "fetchAllCollectionItems B fetch cid tok =
           fetchAllCollectionItems_loop B fetch cid tok (100 * n)
             (concat (map items [0..<n]))
             (map (\<lambda>k. itemsRequest cid tok (100 * k)) [0..<n])"
proof -
  have cont: "afterPage B (body k) ([] @ concat (map items [0..<k]))
                = Inr (Continue ([] @ concat (map items [0..<Suc k])))" if "k < n" for k
  proof -
    from go [OF that] have ne: "items k \<noteq> []" by auto
    show ?thesis
      using its [of k] tots [of k] go [OF that] that ne
      by (simp add: afterPage_array [where xs = "items k" and t = "tot k"])
  qed
  have "fetchAllCollectionItems_loop B fetch cid tok 0 [] [] =
        fetchAllCollectionItems_loop B fetch cid tok (0 + 100 * n)
          ([] @ concat (map items [0..<n]))
          ([] @ map (\<lambda>k. itemsRequest cid tok (0 + 100 * k)) [0..<n])"
  proof (rule loop_prefix [where body = body])
    fix k assume "k < n"
    then show "servesPage fetch (itemsRequest cid tok (0 + 100 * k)) (body k)"
      using served [of k] by simp
  qed (rule cont)
  then show ?thesis
    by (simp add: fetchAllCollectionItems_def)
qed

lemma sweep_last_page:
  assumes served: "\<And>k. k \<le> n \<Longrightarrow> servesPage fetch (itemsRequest cid tok (100 * k)) (body k)"
    and its: "\<And>k. k \<le> n \<Longrightarrow> pageItems (body k) = Inr (JArr (items k))"
    and tots: "\<And>k. k \<le> n \<Longrightarrow> paginationTotal (body k) = Inr (tot k)"
    and go: "\<And>k. k < n \<Longrightarrow> \<not> length (items k) < 100
               \<and> totalReached B (length (concat (map items [0..<Suc k]))) (tot k) = Inr False"
    and stop: "items n = []
               \<or> totalReached B (length (concat (map items [0..<Suc n]))) (tot n) = Inr True
               \<or> (totalReached B (length (concat (map items [0..<Suc n]))) (tot n) = Inr False
                   \<and> length (items n) < 100)"
  shows "fetchAllCollectionItems B fetch cid tok =
           Some (map (\<lambda>k. itemsRequest cid tok (100 * k)) [0..<Suc n],
                 Inr (concat (map items [0..<Suc n])))"
proof -
  have "afterPage B (body n) (concat (map items [0..<n]))
          = Inr (Break (concat (map items [0..<Suc n])))"
    using stop its [of n] tots [of n]
    by (auto simp: afterPage_array [where xs = "items n" and t = "tot n"])
  then have "fetchAllCollectionItems_loop B fetch cid tok (100 * n)
             (concat (map items [0..<n]))
             (map (\<lambda>k. itemsRequest cid tok (100 * k)) [0..<n])
        = Some (map (\<lambda>k. itemsRequest cid tok (100 * k)) [0..<n] @ [itemsRequest cid tok (100 * n)],
                Inr (concat (map items [0..<Suc n])))"
    using served [of n] by (intro loop_break [where body = "body n"]) simp_all
  then show ?thesis
    using sweep_pages [OF served its tots go] by simp
qed

lemma sweep_failed_page:
  assumes served: "\<And>k. k < n \<Longrightarrow> servesPage fetch (itemsRequest cid tok (100 * k)) (body k)"
    and its: "\<And>k. k < n \<Longrightarrow> pageItems (body k) = Inr (JArr (items k))"
    and tots: "\<And>k. k < n \<Longrightarrow> paginationTotal (body k) = Inr (tot k)"
    and go: "\<And>k. k < n \<Longrightarrow> \<not> length (items k) < 100
               \<and> totalReached B (length (concat (map items [0..<Suc k]))) (tot k) = Inr False"
    and failed: "fetch (itemsRequest cid tok (100 * n)) = Inr r" "\<not> resp_ok r"
  shows "fetchAllCollectionItems B fetch cid tok =
           Some (map (\<lambda>k. itemsRequest cid tok (100 * k)) [0..<Suc n],
                 Inl (Error (''Webflow API '' @ showNat (resp_status r) @ '': '' @ resp_text r)))"
proof -
  have cont: "afterPage B (body k) ([] @ concat (map items [0..<k]))
                = Inr (Continue ([] @ concat (map items [0..<Suc k])))" if "k < n" for k
  proof -
    from go [OF that] have ne: "items k \<noteq> []" by auto
    show ?thesis
      using its [of k] tots [of k] go [OF that] that ne
      by (simp add: afterPage_array [where xs = "items k" and t = "tot k"])
  qed
  have "fetchAllCollectionItems_loop B fetch cid tok 0 [] [] =
        fetchAllCollectionItems_loop B fetch cid tok (0 + 100 * n)
          ([] @ concat (map items [0..<n]))
          ([] @ map (\<lambda>k. itemsRequest cid tok (0 + 100 * k)) [0..<n])"
  proof (rule loop_prefix [where body = body])
    fix k assume "k < n"
    then show "servesPage fetch (itemsRequest cid tok (0 + 100 * k)) (body k)"
      using served [of k] by simp
  qed (rule cont)
  then show ?thesis
    using loop_http_error [where fetch = fetch and cid = cid and tok = tok and off = "100 * n"
        and r = r, OF failed]
    by (simp add: fetchAllCollectionItems_def)
qed

lemma sweepJS_pages:
  assumes served: "\<And>k. k < n \<Longrightarrow>
              servesPage fetch (pageRequest baseUrl (cms_pageSize this * k) (cms_pageSize this)) (body k)"
    and its: "\<And>k. k < n \<Longrightarrow> itemsOrBody (body k) = Inr (JArr (items k))"
    and tots: "\<And>k. k < n \<Longrightarrow> getProp (body k) ''total'' = Inr (tot k)"
    and go: "\<And>k. k < n \<Longrightarrow> items k \<noteq> [] \<and> \<not> length (items k) < cms_pageSize this
               \<and> totalReached B (length (concat (map items [0..<Suc k]))) (tot k) = Inr False"
  shows "fetchAllPages B fetch this baseUrl =
           fetchAllPages_loop B fetch baseUrl (cms_pageSize this) (cms_pageSize this * n)
             (concat (map items [0..<n]))
             (map (\<lambda>k. pageRequest baseUrl (cms_pageSize this * k) (cms_pageSize this)) [0..<n])"
proof -
  let ?lmt = "cms_pageSize this"
  have cont: "afterPageJS B ?lmt (body k) ([] @ concat (map items [0..<k]))
                = Inr (Continue ([] @ concat (map items [0..<Suc k])))" if "k < n" for k
    using its [OF that] tots [OF that] go [OF that]
    by (simp add: afterPageJS_array [where xs = "items k" and t = "tot k"])
  have "fetchAllPages_loop B fetch baseUrl ?lmt 0 [] [] =
        fetchAllPages_loop B fetch baseUrl ?lmt (0 + ?lmt * n)
          ([] @ concat (map items [0..<n]))
          ([] @ map (\<lambda>k. pageRequest baseUrl (0 + ?lmt * k) ?lmt) [0..<n])"
  proof (rule loopJS_prefix [where body = body])
    fix k assume "k < n"
    then show "servesPage fetch (pageRequest baseUrl (0 + ?lmt * k) ?lmt) (body k)"
      using served [of k] by simp
  qed (rule cont)
  then show ?thesis
    by (simp add: fetchAllPages_def)
qed

lemma sweepJS_last_page:
  assumes served: "\<And>k. k \<le> n \<Longrightarrow>
              servesPage fetch (pageRequest baseUrl (cms_pageSize this * k) (cms_pageSize this)) (body k)"
    and its: "\<And>k. k \<le> n \<Longrightarrow> itemsOrBody (body k) = Inr (JArr (items k))"
    and tots: "\<And>k. k \<le> n \<Longrightarrow> getProp (body k) ''total'' = Inr (tot k)"
    and go: "\<And>k. k < n \<Longrightarrow> items k \<noteq> [] \<and> \<not> length (items k) < cms_pageSize this
               \<and> totalReached B (length (concat (map items [0..<Suc k]))) (tot k) = Inr False"
    and stop: "items n = []
               \<or> totalReached B (length (concat (map items [0..<Suc n]))) (tot n) = Inr True
               \<or> (totalReached B (length (concat (map items [0..<Suc n]))) (tot n) = Inr False
                   \<and> length (items n) < cms_pageSize this)"
  shows "fetchAllPages B fetch this baseUrl =
           Some (map (\<lambda>k. pageRequest baseUrl (cms_pageSize this * k) (cms_pageSize this)) [0..<Suc n],
                 Inr (concat (map items [0..<Suc n])))"
proof -
  let ?lmt = "cms_pageSize this"
  have "afterPageJS B ?lmt (body n) (concat (map items [0..<n]))
          = Inr (Break (concat (map items [0..<Suc n])))"
    using stop its [of n] tots [of n]
    by (auto simp: afterPageJS_array [where xs = "items n" and t = "tot n"])
  then have "fetchAllPages_loop B fetch baseUrl ?lmt (?lmt * n)
             (concat (map items [0..<n]))
             (map (\<lambda>k. pageRequest baseUrl (?lmt * k) ?lmt) [0..<n])
        = Some (map (\<lambda>k. pageRequest baseUrl (?lmt * k) ?lmt) [0..<n]
                  @ [pageRequest baseUrl (?lmt * n) ?lmt],
                Inr (concat (map items [0..<Suc n])))"
    using served [of n] by (intro loopJS_break [where body = "body n"]) simp_all
  moreover have "fetchAllPages B fetch this baseUrl =
           fetchAllPages_loop B fetch baseUrl ?lmt (?lmt * n)
             (concat (map items [0..<n]))
             (map (\<lambda>k. pageRequest baseUrl (?lmt * k) ?lmt) [0..<n])"
    using served its tots go by (intro sweepJS_pages [where body = body and tot = tot]) simp_all
  ultimately show ?thesis
    by simp
qed

lemma sweepJS_failed_page:
  assumes served: "\<And>k. k < n \<Longrightarrow>
              servesPage fetch (pageRequest baseUrl (cms_pageSize this * k) (cms_pageSize this)) (body k)"
    and its: "\<And>k. k < n \<Longrightarrow> itemsOrBody (body k) = Inr (JArr (items k))"
    and tots: "\<And>k. k < n \<Longrightarrow> getProp (body k) ''total'' = Inr (tot k)"
    and go: "\<And>k. k < n \<Longrightarrow> items k \<noteq> [] \<and> \<not> length (items k) < cms_pageSize this
               \<and> totalReached B (length (concat (map items [0..<Suc k]))) (tot k) = Inr False"
    and failed: "fetch (pageRequest baseUrl (cms_pageSize this * n) (cms_pageSize this)) = Inr r"
      "\<not> resp_ok r"
  shows "fetchAllPages B fetch this baseUrl =
           Some (map (\<lambda>k. pageRequest baseUrl (cms_pageSize this * k) (cms_pageSize this)) [0..<Suc n],
                 Inl (Error (''HTTP error! status: '' @ showNat (resp_status r))))"
  using sweepJS_pages [where body = body and tot = tot, OF served its tots go]
    loopJS_http_error [where fetch = fetch and base = baseUrl and off = "cms_pageSize this * n"
        and lmt = "cms_pageSize this" and r = r, OF failed]
  by simp

subsection \<open>The three-page upstream\<close>

lemma exampleItems_Nil [simp]: "(exampleItems a b = []) = (b \<le> a)"
  by (auto simp: exampleItems_def)

lemma exampleItems_append:
  "a \<le> b \<Longrightarrow> b \<le> c \<Longrightarrow> exampleItems a b @ exampleItems b c = exampleItems a c"
  unfolding exampleItems_def map_append [symmetric]
  by (metis le_Suc_ex upt_add_eq_append)

lemma itemsPage_reads [simp]:
  "pageItems (itemsPage xs) = Inr (JArr xs)"
  "paginationTotal (itemsPage xs) = Inr JUndefined"
  "itemsOrBody (itemsPage xs) = Inr (JArr xs)"
  "getProp (itemsPage xs) ''total'' = Inr JUndefined"
  by (simp_all add: itemsPage_def pageItems_def paginationTotal_def itemsOrBody_def
        objGet_def objectPrototypeKeys_def nullish_def)

lemma okResponse_serves [simp]:
  "fetch req = okResponse b \<Longrightarrow> servesPage fetch req b"
  by (simp add: servesPage_def okResponse_def)

lemma threePages_proxy:
  "fetchAllCollectionItems B (threePages (itemsRequest cid tok)) cid tok =
     Some ([itemsRequest cid tok 0, itemsRequest cid tok 100, itemsRequest cid tok 200],
           Inr (exampleItems 0 237))"
proof -
  let ?mk = "itemsRequest cid tok"
  let ?up = "threePages ?mk"
  have r: "?up (?mk 0) = okResponse (itemsPage (exampleItems 0 100))"
    "?up (?mk 100) = okResponse (itemsPage (exampleItems 100 200))"
    "?up (?mk 200) = okResponse (itemsPage (exampleItems 200 237))"
    by (simp_all add: threePages_def itemsRequest_def PAGE_SIZE_def)
  have "fetchAllCollectionItems B ?up cid tok =
        fetchAllCollectionItems_loop B ?up cid tok 100 (exampleItems 0 100) [?mk 0]"
    unfolding fetchAllCollectionItems_def
    using loop_continue [where fetch = ?up and cid = cid and tok = tok and off = 0
        and body = "itemsPage (exampleItems 0 100)" and B = B and acc = "[]" and reqs = "[]"
        and acc' = "exampleItems 0 100"]
    by (simp add: r afterPage_array [where xs = "exampleItems 0 100" and t = JUndefined])
  also have "\<dots> = fetchAllCollectionItems_loop B ?up cid tok 200
        (exampleItems 0 200) [?mk 0, ?mk 100]"
    using loop_continue [where fetch = ?up and cid = cid and tok = tok and off = 100
        and body = "itemsPage (exampleItems 100 200)" and B = B and acc = "exampleItems 0 100"
        and reqs = "[?mk 0]" and acc' = "exampleItems 0 200"]
    by (simp add: r exampleItems_append
          afterPage_array [where xs = "exampleItems 100 200" and t = JUndefined])
  also have "\<dots> = Some ([?mk 0, ?mk 100, ?mk 200], Inr (exampleItems 0 237))"
    using loop_break [where fetch = ?up and cid = cid and tok = tok and off = 200
        and body = "itemsPage (exampleItems 200 237)" and B = B and acc = "exampleItems 0 200"
        and reqs = "[?mk 0, ?mk 100]" and out = "exampleItems 0 237"]
    by (simp add: r exampleItems_append
          afterPage_array [where xs = "exampleItems 200 237" and t = JUndefined])
  finally show ?thesis .
qed

lemma threePages_client:
  assumes "cms_pageSize this = 100"
  shows "fetchAllPages B (threePages (\<lambda>off. pageRequest baseUrl off 100)) this baseUrl =
     Some ([pageRequest baseUrl 0 100, pageRequest baseUrl 100 100, pageRequest baseUrl 200 100],
           Inr (exampleItems 0 237))"
proof -
  let ?mk = "\<lambda>off. pageRequest baseUrl off 100"
  let ?up = "threePages ?mk"
  have r: "?up (?mk 0) = okResponse (itemsPage (exampleItems 0 100))"
    "?up (?mk 100) = okResponse (itemsPage (exampleItems 100 200))"
    "?up (?mk 200) = okResponse (itemsPage (exampleItems 200 237))"
    by (simp_all add: threePages_def pageRequest_def)
  have "fetchAllPages B ?up this baseUrl =
        fetchAllPages_loop B ?up baseUrl 100 100 (exampleItems 0 100) [?mk 0]"
    unfolding fetchAllPages_def assms
    using loopJS_continue [where fetch = ?up and base = baseUrl and lmt = 100 and off = 0
        and body = "itemsPage (exampleItems 0 100)" and B = B and acc = "[]" and reqs = "[]"
        and acc' = "exampleItems 0 100"]
    by (simp add: r afterPageJS_array [where xs = "exampleItems 0 100" and t = JUndefined])
  also have "\<dots> = fetchAllPages_loop B ?up baseUrl 100 200
        (exampleItems 0 200) [?mk 0, ?mk 100]"
    using loopJS_continue [where fetch = ?up and base = baseUrl and lmt = 100 and off = 100
        and body = "itemsPage (exampleItems 100 200)" and B = B and acc = "exampleItems 0 100"
        and reqs = "[?mk 0]" and acc' = "exampleItems 0 200"]
    by (simp add: r exampleItems_append
          afterPageJS_array [where xs = "exampleItems 100 200" and t = JUndefined])
  also have "\<dots> = Some ([?mk 0, ?mk 100, ?mk 200], Inr (exampleItems 0 237))"
    using loopJS_break [where fetch = ?up and base = baseUrl and lmt = 100 and off = 200
        and body = "itemsPage (exampleItems 200 237)" and B = B and acc = "exampleItems 0 200"
        and reqs = "[?mk 0, ?mk 100]" and out = "exampleItems 0 237"]
    by (simp add: r exampleItems_append
          afterPageJS_array [where xs = "exampleItems 200 237" and t = JUndefined])
  finally show ?thesis .
qed

subsection \<open>Sweeps of one request\<close>

lemma client_single_page:
  assumes "cms_pageSize this = 100" "xs \<noteq> []" "length xs < 100"
  shows "fetchAllPages B (\<lambda>req. okResponse (itemsPage xs)) this baseUrl =
           Some ([pageRequest baseUrl 0 100], Inr xs)"
  using loopJS_break [where fetch = "\<lambda>req. okResponse (itemsPage xs)" and base = baseUrl
        and off = 0 and lmt = 100 and body = "itemsPage xs" and B = B and acc = "[]"
        and reqs = "[]" and out = xs] assms
  by (simp add: fetchAllPages_def afterPageJS_array [where xs = xs and t = JUndefined])

lemma client_sweep_fails:
  "cms_pageSize this = 100 \<Longrightarrow>
   fetchAllPages B (\<lambda>req. failedResponse code txt) this baseUrl =
     Some ([pageRequest baseUrl 0 100], Inl (Error (''HTTP error! status: '' @ showNat code)))"
  using loopJS_http_error [where fetch = "\<lambda>req. failedResponse code txt"
        and base = baseUrl and off = 0 and lmt = 100
        and r = "\<lparr>resp_ok = False, resp_status = code, resp_text = txt, resp_json = Inl SyntaxError\<rparr>"
        and B = B and acc = "[]" and reqs = "[]"]
  by (simp add: failedResponse_def fetchAllPages_def)

lemma proxy_sweep_fails:
  "fetchAllCollectionItems B (\<lambda>req. failedResponse code txt) cid tok =
     Some ([itemsRequest cid tok 0],
           Inl (Error (''Webflow API '' @ showNat code @ '': '' @ txt)))"
  using loop_http_error [where fetch = "\<lambda>req. failedResponse code txt"
        and cid = cid and tok = tok and off = 0
        and r = "\<lparr>resp_ok = False, resp_status = code, resp_text = txt, resp_json = Inl SyntaxError\<rparr>"
        and B = B and acc = "[]" and reqs = "[]"]
  by (simp add: failedResponse_def fetchAllCollectionItems_def)

section \<open>The checks made on each page\<close>

text \<open>
  Claim C1, as the code has it. A page has been received (success status, body parsed)
  and its items value is an array (for the client: any value). Both paginators make three
  checks, in this order: (a) a page of zero items ends the sweep with what was collected
  before, and the client also counts an items value that is not an array as such a page;
  (b) when a total is present (not \<^verbatim>\<open>null\<close>, not \<^verbatim>\<open>undefined\<close>) and the number of items
  collected, this page included, is at least the total, the sweep ends, whatever the size
  of the page; (c) a page of fewer items than the page size ends the sweep; otherwise the
  loop goes on at the offset advanced by the page size, which is 100, and the next
  request of the sweep is the request for that offset. The proxy reads the total under
  \<^verbatim>\<open>pagination\<close> (\<^verbatim>\<open>data.pagination.total\<close>), the client at the top level of the body
  (\<^verbatim>\<open>data.total\<close>): a total under \<^verbatim>\<open>pagination\<close> is absent for the client, a top-level
  total is absent for the proxy. The requests are given by their URL and headers, and
  requests for different offsets differ.
\<close>

theorem page_decision:
  "(servesPage fetch (itemsRequest cid tok off) body \<and> pageItems body = Inr (JArr xs)
    \<longrightarrow> (xs = [] \<longrightarrow>
           fetchAllCollectionItems_loop B fetch cid tok off acc reqs =
             Some (reqs @ [itemsRequest cid tok off], Inr acc))
        \<and> (xs \<noteq> [] \<and> totalReached B (length (acc @ xs)) (totalUnderPagination body) = Inr True \<longrightarrow>
           fetchAllCollectionItems_loop B fetch cid tok off acc reqs =
             Some (reqs @ [itemsRequest cid tok off], Inr (acc @ xs)))
        \<and> (xs \<noteq> [] \<and> totalReached B (length (acc @ xs)) (totalUnderPagination body) = Inr False
              \<and> length xs < 100 \<longrightarrow>
           fetchAllCollectionItems_loop B fetch cid tok off acc reqs =
             Some (reqs @ [itemsRequest cid tok off], Inr (acc @ xs)))
        \<and> (xs \<noteq> [] \<and> totalReached B (length (acc @ xs)) (totalUnderPagination body) = Inr False
              \<and> \<not> length xs < 100 \<longrightarrow>
           fetchAllCollectionItems_loop B fetch cid tok off acc reqs =
             fetchAllCollectionItems_loop B fetch cid tok (off + 100) (acc @ xs)
               (reqs @ [itemsRequest cid tok off])
           \<and> (\<forall>rs out. fetchAllCollectionItems_loop B fetch cid tok off acc reqs = Some (rs, out)
                 \<longrightarrow> (\<exists>more. rs = reqs @ itemsRequest cid tok off
                                       # itemsRequest cid tok (off + 100) # more))))
   \<and> (servesPage fetch' (pageRequest baseUrl off' lmt) body' \<and> itemsOrBody body' = Inr v
    \<longrightarrow> ((\<forall>ys. v \<noteq> JArr ys) \<or> v = JArr [] \<longrightarrow>
           fetchAllPages_loop B fetch' baseUrl lmt off' acc' reqs' =
             Some (reqs' @ [pageRequest baseUrl off' lmt], Inr acc'))
        \<and> (\<forall>ys. v = JArr ys \<and> ys \<noteq> []
                \<and> totalReached B (length (acc' @ ys)) (topLevelTotal body') = Inr True \<longrightarrow>
           fetchAllPages_loop B fetch' baseUrl lmt off' acc' reqs' =
             Some (reqs' @ [pageRequest baseUrl off' lmt], Inr (acc' @ ys)))
        \<and> (\<forall>ys. v = JArr ys \<and> ys \<noteq> []
                \<and> totalReached B (length (acc' @ ys)) (topLevelTotal body') = Inr False
                \<and> length ys < lmt \<longrightarrow>
           fetchAllPages_loop B fetch' baseUrl lmt off' acc' reqs' =
             Some (reqs' @ [pageRequest baseUrl off' lmt], Inr (acc' @ ys)))
        \<and> (\<forall>ys. v = JArr ys \<and> ys \<noteq> []
                \<and> totalReached B (length (acc' @ ys)) (topLevelTotal body') = Inr False
                \<and> \<not> length ys < lmt \<longrightarrow>
           fetchAllPages_loop B fetch' baseUrl lmt off' acc' reqs' =
             fetchAllPages_loop B fetch' baseUrl lmt (off' + lmt) (acc' @ ys)
               (reqs' @ [pageRequest baseUrl off' lmt])
           \<and> (\<forall>rs out. fetchAllPages_loop B fetch' baseUrl lmt off' acc' reqs' = Some (rs, out)
                 \<longrightarrow> (\<exists>more. rs = reqs' @ pageRequest baseUrl off' lmt
                                       # pageRequest baseUrl (off' + lmt) lmt # more))))
   \<and> PAGE_SIZE = 100
   \<and> cms_pageSize (newWebflowCMS apiToken siteId windowToken windowSiteId) = 100
   \<and> (\<forall>n. totalReached B n JUndefined = Inr False \<and> totalReached B n JNull = Inr False)
   \<and> (\<forall>n q. totalReached B n (JNum (Fin q)) = Inr (q \<le> of_nat n))
   \<and> (\<forall>x t. totalUnderPagination (JObj [(''items'', x), (''pagination'', JObj [(''total'', t)])]) = t
            \<and> topLevelTotal (JObj [(''items'', x), (''pagination'', JObj [(''total'', t)])]) = JUndefined
            \<and> topLevelTotal (JObj [(''items'', x), (''total'', t)]) = t
            \<and> totalUnderPagination (JObj [(''items'', x), (''total'', t)]) = JUndefined)
   \<and> req_url (itemsRequest cid tok off) =
        ''https://api.webflow.com/v2/collections/'' @ cid @ ''/items?limit=100&offset='' @ showNat off
   \<and> req_headers (itemsRequest cid tok off) =
        [(''Authorization'', ''Bearer '' @ tok), (''Accept-Version'', ''1.0.0''),
         (''Content-Type'', ''application/json'')]
   \<and> req_url (pageRequest baseUrl off' lmt) =
        baseUrl @ (if CHR ''?'' \<in> set baseUrl then ''&'' else ''?'')
          @ ''offset='' @ showNat off' @ ''&limit='' @ showNat lmt
   \<and> req_headers (pageRequest baseUrl off' lmt) = []
   \<and> (\<forall>m n. showNat m = showNat n \<longrightarrow> m = n)"
proof (intro conjI impI allI)
  assume h: "servesPage fetch (itemsRequest cid tok off) body \<and> pageItems body = Inr (JArr xs)"
  then have tot: "paginationTotal body = Inr (totalUnderPagination body)"
    by (intro paginationTotal_located) (auto dest: pageItems_not_nullish)
  with h have ap: "afterPage B body acc =
     (if xs = [] then Inr (Break acc)
      else bindE (totalReached B (length (acc @ xs)) (totalUnderPagination body)) (\<lambda>reached.
             if reached then Inr (Break (acc @ xs))
             else if length xs < 100 then Inr (Break (acc @ xs))
             else Inr (Continue (acc @ xs))))"
    by (intro afterPage_array) simp_all
  {
    assume "xs = []"
    with h ap show "fetchAllCollectionItems_loop B fetch cid tok off acc reqs =
             Some (reqs @ [itemsRequest cid tok off], Inr acc)"
      by (intro loop_break [of fetch cid tok off body]) simp_all
  }
  {
    assume "xs \<noteq> [] \<and> totalReached B (length (acc @ xs)) (totalUnderPagination body) = Inr True"
    with h ap show "fetchAllCollectionItems_loop B fetch cid tok off acc reqs =
             Some (reqs @ [itemsRequest cid tok off], Inr (acc @ xs))"
      by (intro loop_break [of fetch cid tok off body]) simp_all
  }
  {
    assume "xs \<noteq> [] \<and> totalReached B (length (acc @ xs)) (totalUnderPagination body) = Inr False
              \<and> length xs < 100"
    with h ap show "fetchAllCollectionItems_loop B fetch cid tok off acc reqs =
             Some (reqs @ [itemsRequest cid tok off], Inr (acc @ xs))"
      by (intro loop_break [of fetch cid tok off body]) simp_all
  }
  {
    assume "xs \<noteq> [] \<and> totalReached B (length (acc @ xs)) (totalUnderPagination body) = Inr False
              \<and> \<not> length xs < 100"
    with h ap show go: "fetchAllCollectionItems_loop B fetch cid tok off acc reqs =
             fetchAllCollectionItems_loop B fetch cid tok (off + 100) (acc @ xs)
               (reqs @ [itemsRequest cid tok off])"
      by (intro loop_continue [of fetch cid tok off body]) simp_all
    fix rs out
    assume "fetchAllCollectionItems_loop B fetch cid tok off acc reqs = Some (rs, out)"
    with go have "fetchAllCollectionItems_loop B fetch cid tok (off + 100) (acc @ xs)
               (reqs @ [itemsRequest cid tok off]) = Some (rs, out)"
      by simp
    from loop_first_request [OF this]
    show "\<exists>more. rs = reqs @ itemsRequest cid tok off # itemsRequest cid tok (off + 100) # more"
      by simp
  }
next
  assume h: "servesPage fetch' (pageRequest baseUrl off' lmt) body' \<and> itemsOrBody body' = Inr v"
  then have tot: "getProp body' ''total'' = Inr (topLevelTotal body')"
    by (intro total_located) (auto dest: itemsOrBody_not_nullish)
  {
    assume "(\<forall>ys. v \<noteq> JArr ys) \<or> v = JArr []"
    then have "afterPageJS B lmt body' acc' = Inr (Break acc')"
    proof
      assume "\<forall>ys. v \<noteq> JArr ys"
      with h show ?thesis by (intro afterPageJS_not_array [of body' v]) simp_all
    next
      assume "v = JArr []"
      with h tot show ?thesis
        using afterPageJS_array [of body' "[]" "topLevelTotal body'" B lmt acc'] by simp
    qed
    with h show "fetchAllPages_loop B fetch' baseUrl lmt off' acc' reqs' =
             Some (reqs' @ [pageRequest baseUrl off' lmt], Inr acc')"
      by (intro loopJS_break [of fetch' baseUrl off' lmt body']) simp_all
  }
  {
    fix ys
    assume a: "v = JArr ys \<and> ys \<noteq> []
                \<and> totalReached B (length (acc' @ ys)) (topLevelTotal body') = Inr True"
    with h tot have "afterPageJS B lmt body' acc' = Inr (Break (acc' @ ys))"
      using afterPageJS_array [of body' ys "topLevelTotal body'" B lmt acc'] by simp
    with h show "fetchAllPages_loop B fetch' baseUrl lmt off' acc' reqs' =
             Some (reqs' @ [pageRequest baseUrl off' lmt], Inr (acc' @ ys))"
      by (intro loopJS_break [of fetch' baseUrl off' lmt body']) simp_all
  }
  {
    fix ys
    assume a: "v = JArr ys \<and> ys \<noteq> []
                \<and> totalReached B (length (acc' @ ys)) (topLevelTotal body') = Inr False
                \<and> length ys < lmt"
    with h tot have "afterPageJS B lmt body' acc' = Inr (Break (acc' @ ys))"
      using afterPageJS_array [of body' ys "topLevelTotal body'" B lmt acc'] by simp
    with h show "fetchAllPages_loop B fetch' baseUrl lmt off' acc' reqs' =
             Some (reqs' @ [pageRequest baseUrl off' lmt], Inr (acc' @ ys))"
      by (intro loopJS_break [of fetch' baseUrl off' lmt body']) simp_all
  }
  {
    fix ys
    assume a: "v = JArr ys \<and> ys \<noteq> []
                \<and> totalReached B (length (acc' @ ys)) (topLevelTotal body') = Inr False
                \<and> \<not> length ys < lmt"
    with h tot have "afterPageJS B lmt body' acc' = Inr (Continue (acc' @ ys))"
      using afterPageJS_array [of body' ys "topLevelTotal body'" B lmt acc'] by simp
    with h show go: "fetchAllPages_loop B fetch' baseUrl lmt off' acc' reqs' =
             fetchAllPages_loop B fetch' baseUrl lmt (off' + lmt) (acc' @ ys)
               (reqs' @ [pageRequest baseUrl off' lmt])"
      by (intro loopJS_continue [of fetch' baseUrl off' lmt body']) simp_all
    fix rs out
    assume "fetchAllPages_loop B fetch' baseUrl lmt off' acc' reqs' = Some (rs, out)"
    with go have "fetchAllPages_loop B fetch' baseUrl lmt (off' + lmt) (acc' @ ys)
               (reqs' @ [pageRequest baseUrl off' lmt]) = Some (rs, out)"
      by simp
    from loopJS_first_request [OF this]
    show "\<exists>more. rs = reqs' @ pageRequest baseUrl off' lmt
                        # pageRequest baseUrl (off' + lmt) lmt # more"
      by simp
  }
next
  show "PAGE_SIZE = 100" by (simp add: PAGE_SIZE_def)
next
  show "cms_pageSize (newWebflowCMS apiToken siteId windowToken windowSiteId) = 100"
    by (simp add: newWebflowCMS_def)
next
  show "req_url (itemsRequest cid tok off) =
        ''https://api.webflow.com/v2/collections/'' @ cid @ ''/items?limit=100&offset='' @ showNat off"
    by (simp add: itemsRequest_def PAGE_SIZE_def)
next
  show "req_headers (itemsRequest cid tok off) =
        [(''Authorization'', ''Bearer '' @ tok), (''Accept-Version'', ''1.0.0''),
         (''Content-Type'', ''application/json'')]"
    by (simp add: itemsRequest_def)
next
  show "req_url (pageRequest baseUrl off' lmt) =
        baseUrl @ (if CHR ''?'' \<in> set baseUrl then ''&'' else ''?'')
          @ ''offset='' @ showNat off' @ ''&limit='' @ showNat lmt"
    by (simp add: pageRequest_def includesStr_char)
next
  show "req_headers (pageRequest baseUrl off' lmt) = []"
    by (simp add: pageRequest_def)
next
  fix m n assume "showNat m = showNat n"
  then show "m = n" by (rule showNat_inj)
qed (simp_all add: totalUnderPagination_def topLevelTotal_def)

theorem page_decision_witness:
  "fetchAllCollectionItems_loop examplePlatform (\<lambda>req. okResponse metadataTotalPage)
       ''col'' ''tok'' 0 [] []
     = Some ([itemsRequest ''col'' ''tok'' 0], Inr (exampleItems 0 100))
   \<and> fetchAllPages_loop examplePlatform (\<lambda>req. okResponse topTotalPage)
       ''/api/monuments.json'' 100 0 [] []
     = Some ([pageRequest ''/api/monuments.json'' 0 100], Inr (exampleItems 0 100))
   \<and> fetchAllCollectionItems_loop examplePlatform (threePages (itemsRequest ''col'' ''tok''))
       ''col'' ''tok'' 0 [] []
     = fetchAllCollectionItems_loop examplePlatform (threePages (itemsRequest ''col'' ''tok''))
       ''col'' ''tok'' 100 (exampleItems 0 100) [itemsRequest ''col'' ''tok'' 0]
   \<and> fetchAllPages_loop examplePlatform (threePages (\<lambda>off. pageRequest ''/api/monuments.json'' off 100))
       ''/api/monuments.json'' 100 0 [] []
     = fetchAllPages_loop examplePlatform (threePages (\<lambda>off. pageRequest ''/api/monuments.json'' off 100))
       ''/api/monuments.json'' 100 100 (exampleItems 0 100) [pageRequest ''/api/monuments.json'' 0 100]
   \<and> req_url (itemsRequest ''col'' ''tok'' 0)
     = ''https://api.webflow.com/v2/collections/col/items?limit=100&offset=0''
   \<and> req_url (itemsRequest ''col'' ''tok'' 100)
     = ''https://api.webflow.com/v2/collections/col/items?limit=100&offset=100''
   \<and> req_url (pageRequest ''/api/monuments.json'' 0 100) = ''/api/monuments.json?offset=0&limit=100''
   \<and> req_url (pageRequest ''/api/monuments.json'' 100 100) = ''/api/monuments.json?offset=100&limit=100''
   \<and> req_url (pageRequest ''/items?draft=1'' 100 100) = ''/items?draft=1&offset=100&limit=100''"
proof -
  have ne: "exampleItems 0 100 \<noteq> []"
    by (simp add: exampleItems_def)
  have ts: "pageItems metadataTotalPage = Inr (JArr (exampleItems 0 100))"
    by (simp add: pageItems_def metadataTotalPage_def objGet_def nullish_def)
  have js: "itemsOrBody topTotalPage = Inr (JArr (exampleItems 0 100))"
    by (simp add: itemsOrBody_def topTotalPage_def objGet_def)
  have tt: "totalUnderPagination metadataTotalPage = JNum (Fin 100)"
    "topLevelTotal topTotalPage = JNum (Fin 100)"
    by (simp_all add: totalUnderPagination_def topLevelTotal_def metadataTotalPage_def
          topTotalPage_def)
  note th1 = page_decision [where fetch = "\<lambda>req. okResponse metadataTotalPage" and cid = "''col''"
      and tok = "''tok''" and off = 0 and body = metadataTotalPage and xs = "exampleItems 0 100"
      and B = examplePlatform and acc = "[]" and reqs = "[]"
      and fetch' = "\<lambda>req. okResponse topTotalPage" and baseUrl = "''/api/monuments.json''"
      and off' = 0 and lmt = 100 and body' = topTotalPage and v = "JArr (exampleItems 0 100)"
      and acc' = "[]" and reqs' = "[]"]
  from th1 [THEN conjunct1] ts ne tt
  have 1: "fetchAllCollectionItems_loop examplePlatform (\<lambda>req. okResponse metadataTotalPage)
       ''col'' ''tok'' 0 [] []
     = Some ([itemsRequest ''col'' ''tok'' 0], Inr (exampleItems 0 100))"
    by simp
  from th1 [THEN conjunct2, THEN conjunct1] js ne tt
  have 2: "fetchAllPages_loop examplePlatform (\<lambda>req. okResponse topTotalPage)
       ''/api/monuments.json'' 100 0 [] []
     = Some ([pageRequest ''/api/monuments.json'' 0 100], Inr (exampleItems 0 100))"
    by simp
  let ?mk = "itemsRequest ''col'' ''tok''"
  let ?mk' = "\<lambda>off. pageRequest ''/api/monuments.json'' off 100"
  have served: "servesPage (threePages ?mk) (?mk 0) (itemsPage (exampleItems 0 100))"
    "servesPage (threePages ?mk') (?mk' 0) (itemsPage (exampleItems 0 100))"
    by (simp_all add: threePages_def)
  have absent: "totalUnderPagination (itemsPage (exampleItems 0 100)) = JUndefined"
    "topLevelTotal (itemsPage (exampleItems 0 100)) = JUndefined"
    by (simp_all add: totalUnderPagination_def topLevelTotal_def itemsPage_def)
  note th2 = page_decision [where fetch = "threePages ?mk" and cid = "''col''"
      and tok = "''tok''" and off = 0 and body = "itemsPage (exampleItems 0 100)"
      and xs = "exampleItems 0 100" and B = examplePlatform and acc = "[]" and reqs = "[]"
      and fetch' = "threePages ?mk'" and baseUrl = "''/api/monuments.json''"
      and off' = 0 and lmt = 100 and body' = "itemsPage (exampleItems 0 100)"
      and v = "JArr (exampleItems 0 100)" and acc' = "[]" and reqs' = "[]"]
  from th2 [THEN conjunct1] served ne absent
  have 3: "fetchAllCollectionItems_loop examplePlatform (threePages ?mk) ''col'' ''tok'' 0 [] []
     = fetchAllCollectionItems_loop examplePlatform (threePages ?mk) ''col'' ''tok'' 100
         (exampleItems 0 100) [?mk 0]"
    by simp
  from th2 [THEN conjunct2, THEN conjunct1] served ne absent
  have 4: "fetchAllPages_loop examplePlatform (threePages ?mk') ''/api/monuments.json'' 100 0 [] []
     = fetchAllPages_loop examplePlatform (threePages ?mk') ''/api/monuments.json'' 100 100
         (exampleItems 0 100) [?mk' 0]"
    by simp
  note u0 = page_decision [where cid = "''col''" and tok = "''tok''" and off = 0
      and baseUrl = "''/api/monuments.json''" and off' = 0 and lmt = 100,
      THEN conjunct2, THEN conjunct2, THEN conjunct2, THEN conjunct2,
      THEN conjunct2, THEN conjunct2, THEN conjunct2]
  note u1 = page_decision [where cid = "''col''" and tok = "''tok''" and off = 100
      and baseUrl = "''/api/monuments.json''" and off' = 100 and lmt = 100,
      THEN conjunct2, THEN conjunct2, THEN conjunct2, THEN conjunct2,
      THEN conjunct2, THEN conjunct2, THEN conjunct2]
  note u2 = page_decision [where baseUrl = "''/items?draft=1''" and off' = 100 and lmt = 100,
      THEN conjunct2, THEN conjunct2, THEN conjunct2, THEN conjunct2,
      THEN conjunct2, THEN conjunct2, THEN conjunct2]
  have 5: "req_url (itemsRequest ''col'' ''tok'' 0)
     = ''https://api.webflow.com/v2/collections/col/items?limit=100&offset=0''"
    "req_url (itemsRequest ''col'' ''tok'' 100)
     = ''https://api.webflow.com/v2/collections/col/items?limit=100&offset=100''"
    using u0 [THEN conjunct1] u1 [THEN conjunct1]
    by simp_all
  have 6: "req_url (pageRequest ''/api/monuments.json'' 0 100) = ''/api/monuments.json?offset=0&limit=100''"
    "req_url (pageRequest ''/api/monuments.json'' 100 100) = ''/api/monuments.json?offset=100&limit=100''"
    "req_url (pageRequest ''/items?draft=1'' 100 100) = ''/items?draft=1&offset=100&limit=100''"
    using u0 [THEN conjunct2, THEN conjunct2, THEN conjunct1]
      u1 [THEN conjunct2, THEN conjunct2, THEN conjunct1]
      u2 [THEN conjunct2, THEN conjunct2, THEN conjunct1]
    by simp_all
  from 1 2 3 4 5 6 show ?thesis
    by simp
qed

text \<open>
  The claim as stated lets both paginators stop on a total held in the pagination
  metadata. The client does not: on a full page of one hundred items whose body reports
  \<^verbatim>\<open>pagination.total = 100\<close> and no top-level total, it asks for the page at offset 100,
  while the proxy stops after the one request.
\<close>

theorem client_ignores_pagination_total:
  "fetchAllPages examplePlatform
       (thenEmpty (pageRequest ''/api/monuments.json'' 0 100) metadataTotalPage)
       freshClient ''/api/monuments.json''
     = Some ([pageRequest ''/api/monuments.json'' 0 100, pageRequest ''/api/monuments.json'' 100 100],
             Inr (exampleItems 0 100))
   \<and> fetchAllCollectionItems examplePlatform
       (thenEmpty (itemsRequest ''col'' ''tok'' 0) metadataTotalPage) ''col'' ''tok''
     = Some ([itemsRequest ''col'' ''tok'' 0], Inr (exampleItems 0 100))
   \<and> totalUnderPagination metadataTotalPage = JNum (Fin 100)
   \<and> length (exampleItems 0 100) = 100"
proof -
  let ?u = "''/api/monuments.json''"
  let ?up = "thenEmpty (pageRequest ?u 0 100) metadataTotalPage"
  have sz: "cms_pageSize freshClient = 100"
    by (simp add: freshClient_def newWebflowCMS_def)
  have r: "?up (pageRequest ?u 0 100) = okResponse metadataTotalPage"
    "?up (pageRequest ?u 100 100) = okResponse (itemsPage [])"
    by (simp_all add: thenEmpty_def pageRequest_def)
  have rd: "itemsOrBody metadataTotalPage = Inr (JArr (exampleItems 0 100))"
    "getProp metadataTotalPage ''total'' = Inr JUndefined"
    by (simp_all add: itemsOrBody_def metadataTotalPage_def objGet_def objectPrototypeKeys_def)
  have "fetchAllPages examplePlatform ?up freshClient ?u =
        fetchAllPages_loop examplePlatform ?up ?u 100 100 (exampleItems 0 100) [pageRequest ?u 0 100]"
    unfolding fetchAllPages_def sz
    using loopJS_continue [where fetch = ?up and base = ?u and lmt = 100 and off = 0
        and body = metadataTotalPage and B = examplePlatform and acc = "[]" and reqs = "[]"
        and acc' = "exampleItems 0 100"]
    by (simp add: r rd afterPageJS_array [where xs = "exampleItems 0 100" and t = JUndefined])
  also have "\<dots> = Some ([pageRequest ?u 0 100, pageRequest ?u 100 100], Inr (exampleItems 0 100))"
    using loopJS_break [where fetch = ?up and base = ?u and lmt = 100 and off = 100
        and body = "itemsPage []" and B = examplePlatform and acc = "exampleItems 0 100"
        and reqs = "[pageRequest ?u 0 100]" and out = "exampleItems 0 100"]
    by (simp add: r afterPageJS_array [where xs = "[]" and t = JUndefined])
  finally have 1: "fetchAllPages examplePlatform ?up freshClient ?u =
      Some ([pageRequest ?u 0 100, pageRequest ?u 100 100], Inr (exampleItems 0 100))" .
  have pd: "pageItems metadataTotalPage = Inr (JArr (exampleItems 0 100))"
    "paginationTotal metadataTotalPage = Inr (JNum (Fin 100))"
    by (simp_all add: pageItems_def paginationTotal_def metadataTotalPage_def objGet_def nullish_def)
  have 2: "fetchAllCollectionItems examplePlatform
       (thenEmpty (itemsRequest ''col'' ''tok'' 0) metadataTotalPage) ''col'' ''tok''
     = Some ([itemsRequest ''col'' ''tok'' 0], Inr (exampleItems 0 100))"
    unfolding fetchAllCollectionItems_def
    using loop_break [where fetch = "thenEmpty (itemsRequest ''col'' ''tok'' 0) metadataTotalPage"
        and cid = "''col''" and tok = "''tok''" and off = 0 and body = metadataTotalPage
        and B = examplePlatform and acc = "[]" and reqs = "[]" and out = "exampleItems 0 100"]
    by (simp add: thenEmpty_def pd
          afterPage_array [where xs = "exampleItems 0 100" and t = "JNum (Fin 100)"])
  have 3: "totalUnderPagination metadataTotalPage = JNum (Fin 100)"
    by (simp add: totalUnderPagination_def metadataTotalPage_def)
  from 1 2 3 show ?thesis
    by simp
qed

section \<open>The item list of a page body\<close>

lemma getProp_items_other:
  assumes "\<not> nullish body" "\<forall>kvs. body \<noteq> JObj kvs"
  shows "getProp body ''items'' = Inr JUndefined"
  using assms by (cases body) (simp_all add: nullish_def)

lemma objGet_items: "objGet kvs ''items'' = (case map_of kvs ''items'' of Some v \<Rightarrow> v | None \<Rightarrow> JUndefined)"
  by (simp add: objGet_def objectPrototypeKeys_def)

text \<open>
  Claim C4, as the code has it. For every parsed body that is not \<^verbatim>\<open>null\<close>: the client
  paginator (\<^verbatim>\<open>data.items || data\<close>) takes the \<^verbatim>\<open>items\<close> field when the body has one with
  a truthy value, and otherwise the whole body; the proxy paginator
  (\<^verbatim>\<open>data.items ?? []\<close>) takes the \<^verbatim>\<open>items\<close> field when the body has one that is neither
  \<^verbatim>\<open>null\<close> nor \<^verbatim>\<open>undefined\<close>, and otherwise the empty list, never the body. On a
  \<^verbatim>\<open>null\<close> body both throw.
\<close>

theorem item_list_of_body:
  "(\<forall>kvs v. map_of kvs ''items'' = Some v \<and> truthy v \<longrightarrow> itemsOrBody (JObj kvs) = Inr v)
   \<and> (\<forall>body. \<not> nullish body
          \<and> (\<forall>kvs v. body = JObj kvs \<and> map_of kvs ''items'' = Some v \<longrightarrow> \<not> truthy v)
        \<longrightarrow> itemsOrBody body = Inr body)
   \<and> (\<forall>kvs v. map_of kvs ''items'' = Some v \<and> \<not> nullish v \<longrightarrow> pageItems (JObj kvs) = Inr v)
   \<and> (\<forall>body. \<not> nullish body
          \<and> (\<forall>kvs v. body = JObj kvs \<and> map_of kvs ''items'' = Some v \<longrightarrow> nullish v)
        \<longrightarrow> pageItems body = Inr (JArr []))
   \<and> (\<forall>body. nullish body \<longrightarrow> itemsOrBody body = Inl TypeError \<and> pageItems body = Inl TypeError)"
proof (intro conjI allI impI)
  fix kvs v
  assume "map_of kvs ''items'' = Some v \<and> truthy v"
  then show "itemsOrBody (JObj kvs) = Inr v"
    by (simp add: itemsOrBody_def objGet_items)
next
  fix body
  assume h: "\<not> nullish body
          \<and> (\<forall>kvs v. body = JObj kvs \<and> map_of kvs ''items'' = Some v \<longrightarrow> \<not> truthy v)"
  show "itemsOrBody body = Inr body"
  proof (cases "\<exists>kvs. body = JObj kvs")
    case True
    then obtain kvs where b: "body = JObj kvs" by blast
    with h show ?thesis
      by (cases "map_of kvs ''items''") (simp_all add: itemsOrBody_def objGet_items)
  next
    case False
    with h show ?thesis
      by (simp add: itemsOrBody_def getProp_items_other)
  qed
next
  fix kvs v
  assume "map_of kvs ''items'' = Some v \<and> \<not> nullish v"
  then show "pageItems (JObj kvs) = Inr v"
    by (simp add: pageItems_def objGet_items)
next
  fix body
  assume h: "\<not> nullish body
          \<and> (\<forall>kvs v. body = JObj kvs \<and> map_of kvs ''items'' = Some v \<longrightarrow> nullish v)"
  show "pageItems body = Inr (JArr [])"
  proof (cases "\<exists>kvs. body = JObj kvs")
    case True
    then obtain kvs where b: "body = JObj kvs" by blast
    with h show ?thesis
      by (cases "map_of kvs ''items''") (simp_all add: pageItems_def objGet_items nullish_def)
  next
    case False
    with h show ?thesis
      by (simp add: pageItems_def getProp_items_other nullish_def)
  qed
next
  fix body
  assume "nullish body"
  then show "itemsOrBody body = Inl TypeError"
    by (auto simp: nullish_def itemsOrBody_def)
next
  fix body
  assume "nullish body"
  then show "pageItems body = Inl TypeError"
    by (auto simp: nullish_def pageItems_def)
qed

theorem item_list_of_body_witness:
  "itemsOrBody (JObj [(''items'', JArr [JStr ''a'']), (''total'', JNum (Fin 1))]) = Inr (JArr [JStr ''a''])
   \<and> itemsOrBody (JArr [JStr ''a'']) = Inr (JArr [JStr ''a''])
   \<and> itemsOrBody (JObj [(''items'', JNull)]) = Inr (JObj [(''items'', JNull)])
   \<and> pageItems (JObj [(''items'', JArr [JStr ''a'']), (''total'', JNum (Fin 1))]) = Inr (JArr [JStr ''a''])
   \<and> pageItems (JObj [(''total'', JNum (Fin 1))]) = Inr (JArr [])
   \<and> pageItems (JObj [(''items'', JNull)]) = Inr (JArr [])
   \<and> pageItems JNull = Inl TypeError"
proof -
  note th = item_list_of_body
  have 1: "itemsOrBody (JObj [(''items'', JArr [JStr ''a'']), (''total'', JNum (Fin 1))]) = Inr (JArr [JStr ''a''])"
    by (rule th [THEN conjunct1, rule_format]) simp
  have 2: "itemsOrBody (JArr [JStr ''a'']) = Inr (JArr [JStr ''a''])"
    by (rule th [THEN conjunct2, THEN conjunct1, rule_format]) (simp add: nullish_def)
  have 3: "itemsOrBody (JObj [(''items'', JNull)]) = Inr (JObj [(''items'', JNull)])"
    by (rule th [THEN conjunct2, THEN conjunct1, rule_format]) (auto simp: nullish_def)
  have 4: "pageItems (JObj [(''items'', JArr [JStr ''a'']), (''total'', JNum (Fin 1))]) = Inr (JArr [JStr ''a''])"
    by (rule th [THEN conjunct2, THEN conjunct2, THEN conjunct1, rule_format]) (simp add: nullish_def)
  have 5: "pageItems (JObj [(''total'', JNum (Fin 1))]) = Inr (JArr [])"
    by (rule th [THEN conjunct2, THEN conjunct2, THEN conjunct2, THEN conjunct1, rule_format])
       (simp add: nullish_def)
  have 6: "pageItems (JObj [(''items'', JNull)]) = Inr (JArr [])"
    by (rule th [THEN conjunct2, THEN conjunct2, THEN conjunct2, THEN conjunct1, rule_format])
       (auto simp: nullish_def)
  have 7: "pageItems JNull = Inl TypeError"
    using th [THEN conjunct2, THEN conjunct2, THEN conjunct2, THEN conjunct2, rule_format, of JNull]
    by (simp add: nullish_def)
  from 1 2 3 4 5 6 7 show ?thesis by simp
qed

text \<open>
  The claim as stated has every paginator treat a body without an \<^verbatim>\<open>items\<close> field as
  the item list. For a body that is an array of two items the proxy paginator returns
  nothing, where the client paginator returns the two items.
\<close>

theorem proxy_ignores_array_body:
  "pageItems (JArr (exampleItems 0 2)) = Inr (JArr [])
   \<and> fetchAllCollectionItems examplePlatform (\<lambda>req. okResponse (JArr (exampleItems 0 2)))
        ''col'' ''tok'' = Some ([itemsRequest ''col'' ''tok'' 0], Inr [])
   \<and> fetchAllPages examplePlatform (\<lambda>req. okResponse (JArr (exampleItems 0 2)))
        (newWebflowCMS JNull JNull JUndefined JUndefined) ''/api/monuments.json''
      = Some ([pageRequest ''/api/monuments.json'' 0 100], Inr (exampleItems 0 2))"
proof -
  let ?b = "JArr (exampleItems 0 2)"
  have p: "pageItems ?b = Inr (JArr [])" "paginationTotal ?b = Inr JUndefined"
    by (simp_all add: pageItems_def paginationTotal_def nullish_def)
  have j: "itemsOrBody ?b = Inr ?b" "getProp ?b ''total'' = Inr JUndefined"
    by (simp_all add: itemsOrBody_def)
  have 1: "fetchAllCollectionItems_loop examplePlatform (\<lambda>req. okResponse ?b) ''col'' ''tok'' 0 [] []
      = Some ([] @ [itemsRequest ''col'' ''tok'' 0], Inr [])"
    by (rule loop_break [where body = ?b])
       (simp_all add: afterPage_array [where xs = "[]" and t = JUndefined] p)
  have 2: "fetchAllPages_loop examplePlatform (\<lambda>req. okResponse ?b) ''/api/monuments.json'' 100 0 [] []
      = Some ([] @ [pageRequest ''/api/monuments.json'' 0 100], Inr (exampleItems 0 2))"
    by (rule loopJS_break [where body = ?b])
       (simp_all add: afterPageJS_array [where xs = "exampleItems 0 2" and t = JUndefined] j)
  from p 1 2 show ?thesis
    by (simp add: fetchAllCollectionItems_def fetchAllPages_def newWebflowCMS_def)
qed

section \<open>The output of a sweep\<close>

text \<open>
  Claim C7. The upstream serves the pages \<open>0, ..., n\<close>, page \<open>k\<close> at the offset
  \<open>100 * k\<close> with the item list \<open>items k\<close>; the pages before the last do not end the
  sweep (not fewer than 100 items, total absent or not reached) and the last one does
  (no items, or the total reached, or fewer than 100 items). Then the sweep returns, it
  has issued exactly the \<open>n + 1\<close> requests in ascending offset, and its output is the
  concatenation of the item lists in that order. This holds for the proxy paginator and
  for the client paginator. In particular the upstream of three pages of 100, 100 and 37
  items without a total is swept with exactly three requests, and the 237 items come
  back in the order received.
\<close>

theorem sweep_concatenates:
  "((\<forall>k\<le>n. servesPage fetch (itemsRequest cid tok (100 * k)) (body k)
            \<and> pageItems (body k) = Inr (JArr (items k))
            \<and> paginationTotal (body k) = Inr (tot k))
     \<and> (\<forall>k<n. \<not> length (items k) < 100
            \<and> totalReached B (length (concat (map items [0..<Suc k]))) (tot k) = Inr False)
     \<and> (items n = []
         \<or> totalReached B (length (concat (map items [0..<Suc n]))) (tot n) = Inr True
         \<or> (totalReached B (length (concat (map items [0..<Suc n]))) (tot n) = Inr False
             \<and> length (items n) < 100))
    \<longrightarrow> fetchAllCollectionItems B fetch cid tok =
          Some (map (\<lambda>k. itemsRequest cid tok (100 * k)) [0..<Suc n],
                Inr (concat (map items [0..<Suc n]))))
   \<and> ((\<forall>k\<le>m. servesPage fetch' (pageRequest baseUrl (cms_pageSize this * k) (cms_pageSize this)) (body' k)
            \<and> itemsOrBody (body' k) = Inr (JArr (items' k))
            \<and> getProp (body' k) ''total'' = Inr (tot' k))
     \<and> (\<forall>k<m. items' k \<noteq> [] \<and> \<not> length (items' k) < cms_pageSize this
            \<and> totalReached B (length (concat (map items' [0..<Suc k]))) (tot' k) = Inr False)
     \<and> (items' m = []
         \<or> totalReached B (length (concat (map items' [0..<Suc m]))) (tot' m) = Inr True
         \<or> (totalReached B (length (concat (map items' [0..<Suc m]))) (tot' m) = Inr False
             \<and> length (items' m) < cms_pageSize this))
    \<longrightarrow> fetchAllPages B fetch' this baseUrl =
          Some (map (\<lambda>k. pageRequest baseUrl (cms_pageSize this * k) (cms_pageSize this)) [0..<Suc m],
                Inr (concat (map items' [0..<Suc m]))))
   \<and> fetchAllCollectionItems B (threePages (itemsRequest cid tok)) cid tok =
       Some ([itemsRequest cid tok 0, itemsRequest cid tok 100, itemsRequest cid tok 200],
             Inr (exampleItems 0 100 @ exampleItems 100 200 @ exampleItems 200 237))
   \<and> fetchAllPages B (threePages (\<lambda>off. pageRequest baseUrl off 100))
         (newWebflowCMS apiToken siteId windowToken windowSiteId) baseUrl =
       Some ([pageRequest baseUrl 0 100, pageRequest baseUrl 100 100, pageRequest baseUrl 200 100],
             Inr (exampleItems 0 100 @ exampleItems 100 200 @ exampleItems 200 237))
   \<and> length (exampleItems 0 100) = 100 \<and> length (exampleItems 100 200) = 100
   \<and> length (exampleItems 200 237) = 37
   \<and> length (exampleItems 0 100 @ exampleItems 100 200 @ exampleItems 200 237) = 237"
proof (intro conjI impI)
  assume h: "(\<forall>k\<le>n. servesPage fetch (itemsRequest cid tok (100 * k)) (body k)
            \<and> pageItems (body k) = Inr (JArr (items k))
            \<and> paginationTotal (body k) = Inr (tot k))
     \<and> (\<forall>k<n. \<not> length (items k) < 100
            \<and> totalReached B (length (concat (map items [0..<Suc k]))) (tot k) = Inr False)
     \<and> (items n = []
         \<or> totalReached B (length (concat (map items [0..<Suc n]))) (tot n) = Inr True
         \<or> (totalReached B (length (concat (map items [0..<Suc n]))) (tot n) = Inr False
             \<and> length (items n) < 100))"
  show "fetchAllCollectionItems B fetch cid tok =
          Some (map (\<lambda>k. itemsRequest cid tok (100 * k)) [0..<Suc n],
                Inr (concat (map items [0..<Suc n])))"
  proof (rule sweep_last_page [where body = body and tot = tot])
    show "items n = []
         \<or> totalReached B (length (concat (map items [0..<Suc n]))) (tot n) = Inr True
         \<or> (totalReached B (length (concat (map items [0..<Suc n]))) (tot n) = Inr False
             \<and> length (items n) < 100)"
      using h by blast
  qed (use h in blast)+
next
  assume h: "(\<forall>k\<le>m. servesPage fetch' (pageRequest baseUrl (cms_pageSize this * k) (cms_pageSize this)) (body' k)
            \<and> itemsOrBody (body' k) = Inr (JArr (items' k))
            \<and> getProp (body' k) ''total'' = Inr (tot' k))
     \<and> (\<forall>k<m. items' k \<noteq> [] \<and> \<not> length (items' k) < cms_pageSize this
            \<and> totalReached B (length (concat (map items' [0..<Suc k]))) (tot' k) = Inr False)
     \<and> (items' m = []
         \<or> totalReached B (length (concat (map items' [0..<Suc m]))) (tot' m) = Inr True
         \<or> (totalReached B (length (concat (map items' [0..<Suc m]))) (tot' m) = Inr False
             \<and> length (items' m) < cms_pageSize this))"
  show "fetchAllPages B fetch' this baseUrl =
          Some (map (\<lambda>k. pageRequest baseUrl (cms_pageSize this * k) (cms_pageSize this)) [0..<Suc m],
                Inr (concat (map items' [0..<Suc m])))"
  proof (rule sweepJS_last_page [where body = body' and tot = tot'])
    show "items' m = []
         \<or> totalReached B (length (concat (map items' [0..<Suc m]))) (tot' m) = Inr True
         \<or> (totalReached B (length (concat (map items' [0..<Suc m]))) (tot' m) = Inr False
             \<and> length (items' m) < cms_pageSize this)"
      using h by blast
  qed (use h in blast)+
next
  show "fetchAllCollectionItems B (threePages (itemsRequest cid tok)) cid tok =
       Some ([itemsRequest cid tok 0, itemsRequest cid tok 100, itemsRequest cid tok 200],
             Inr (exampleItems 0 100 @ exampleItems 100 200 @ exampleItems 200 237))"
    by (simp add: threePages_proxy exampleItems_append)
next
  show "fetchAllPages B (threePages (\<lambda>off. pageRequest baseUrl off 100))
         (newWebflowCMS apiToken siteId windowToken windowSiteId) baseUrl =
       Some ([pageRequest baseUrl 0 100, pageRequest baseUrl 100 100, pageRequest baseUrl 200 100],
             Inr (exampleItems 0 100 @ exampleItems 100 200 @ exampleItems 200 237))"
    by (simp add: threePages_client newWebflowCMS_def exampleItems_append)
qed simp_all

theorem sweep_concatenates_witness:
  "fetchAllCollectionItems examplePlatform (\<lambda>req. okResponse (itemsPage (exampleItems 0 37)))
       ''col'' ''tok'' =
     Some ([itemsRequest ''col'' ''tok'' 0], Inr (exampleItems 0 37))
   \<and> fetchAllPages examplePlatform (\<lambda>req. okResponse (itemsPage (exampleItems 0 37)))
       (newWebflowCMS JNull JNull JUndefined JUndefined) ''/api/monuments.json'' =
     Some ([pageRequest ''/api/monuments.json'' 0 100], Inr (exampleItems 0 37))"
proof -
  let ?up = "\<lambda>req::request. okResponse (itemsPage (exampleItems 0 37))"
  let ?cms = "newWebflowCMS JNull JNull JUndefined JUndefined"
  have sz: "cms_pageSize ?cms = 100"
    by (simp add: newWebflowCMS_def)
  note th = sweep_concatenates [where n = 0 and fetch = ?up and cid = "''col''" and tok = "''tok''"
      and body = "\<lambda>k. itemsPage (exampleItems 0 37)" and items = "\<lambda>k. exampleItems 0 37"
      and tot = "\<lambda>k. JUndefined" and B = examplePlatform
      and m = 0 and fetch' = ?up and baseUrl = "''/api/monuments.json''" and this = ?cms
      and body' = "\<lambda>k. itemsPage (exampleItems 0 37)" and items' = "\<lambda>k. exampleItems 0 37"
      and tot' = "\<lambda>k. JUndefined"]
  have 1: "fetchAllCollectionItems examplePlatform ?up ''col'' ''tok'' =
     Some ([itemsRequest ''col'' ''tok'' 0], Inr (exampleItems 0 37))"
    using th [THEN conjunct1] by simp
  have 2: "fetchAllPages examplePlatform ?up ?cms ''/api/monuments.json'' =
     Some ([pageRequest ''/api/monuments.json'' 0 100], Inr (exampleItems 0 37))"
    using th [THEN conjunct2, THEN conjunct1] by (simp add: sz)
  from 1 2 show ?thesis by simp
qed

section \<open>A request that fails\<close>

text \<open>
  Claim C8, as the code has it. When a page request of a sweep is answered with a status
  that is not a success, after any number of pages that did not end the sweep, the sweep
  fails at once: that request is the last one issued and it is issued once. The error of
  the proxy paginator has the message \<^verbatim>\<open>Webflow API <status>: <body>\<close>, which contains the
  status code and the text of the response body. The error of the client paginator has
  the message \<^verbatim>\<open>HTTP error! status: <status>\<close>, which contains the status code only.
\<close>

theorem failed_request_ends_sweep:
  "((\<forall>k<n. servesPage fetch (itemsRequest cid tok (100 * k)) (body k)
            \<and> pageItems (body k) = Inr (JArr (items k))
            \<and> paginationTotal (body k) = Inr (tot k)
            \<and> \<not> length (items k) < 100
            \<and> totalReached B (length (concat (map items [0..<Suc k]))) (tot k) = Inr False)
     \<and> fetch (itemsRequest cid tok (100 * n)) = Inr r \<and> \<not> resp_ok r
    \<longrightarrow> fetchAllCollectionItems B fetch cid tok =
          Some (map (\<lambda>k. itemsRequest cid tok (100 * k)) [0..<Suc n],
                Inl (Error (''Webflow API '' @ showNat (resp_status r) @ '': '' @ resp_text r)))
        \<and> includesStr (''Webflow API '' @ showNat (resp_status r) @ '': '' @ resp_text r)
             (showNat (resp_status r))
        \<and> includesStr (''Webflow API '' @ showNat (resp_status r) @ '': '' @ resp_text r)
             (resp_text r))
   \<and> ((\<forall>k<m. servesPage fetch' (pageRequest baseUrl (cms_pageSize this * k) (cms_pageSize this)) (body' k)
            \<and> itemsOrBody (body' k) = Inr (JArr (items' k))
            \<and> getProp (body' k) ''total'' = Inr (tot' k)
            \<and> items' k \<noteq> [] \<and> \<not> length (items' k) < cms_pageSize this
            \<and> totalReached B (length (concat (map items' [0..<Suc k]))) (tot' k) = Inr False)
     \<and> fetch' (pageRequest baseUrl (cms_pageSize this * m) (cms_pageSize this)) = Inr r'
     \<and> \<not> resp_ok r'
    \<longrightarrow> fetchAllPages B fetch' this baseUrl =
          Some (map (\<lambda>k. pageRequest baseUrl (cms_pageSize this * k) (cms_pageSize this)) [0..<Suc m],
                Inl (Error (''HTTP error! status: '' @ showNat (resp_status r'))))
        \<and> includesStr (''HTTP error! status: '' @ showNat (resp_status r'))
             (showNat (resp_status r')))"
proof (intro conjI impI)
  assume h: "(\<forall>k<n. servesPage fetch (itemsRequest cid tok (100 * k)) (body k)
            \<and> pageItems (body k) = Inr (JArr (items k))
            \<and> paginationTotal (body k) = Inr (tot k)
            \<and> \<not> length (items k) < 100
            \<and> totalReached B (length (concat (map items [0..<Suc k]))) (tot k) = Inr False)
     \<and> fetch (itemsRequest cid tok (100 * n)) = Inr r \<and> \<not> resp_ok r"
  show "fetchAllCollectionItems B fetch cid tok =
          Some (map (\<lambda>k. itemsRequest cid tok (100 * k)) [0..<Suc n],
                Inl (Error (''Webflow API '' @ showNat (resp_status r) @ '': '' @ resp_text r)))"
    by (rule sweep_failed_page [where body = body and tot = tot and items = items])
       (use h in blast)+
  show "includesStr (''Webflow API '' @ showNat (resp_status r) @ '': '' @ resp_text r)
             (showNat (resp_status r))"
    by (rule includesStr_append)
  show "includesStr (''Webflow API '' @ showNat (resp_status r) @ '': '' @ resp_text r)
             (resp_text r)"
    using includesStr_append [of "''Webflow API '' @ showNat (resp_status r) @ '': ''" "resp_text r" "[]"]
    by simp
next
  assume h: "(\<forall>k<m. servesPage fetch' (pageRequest baseUrl (cms_pageSize this * k) (cms_pageSize this)) (body' k)
            \<and> itemsOrBody (body' k) = Inr (JArr (items' k))
            \<and> getProp (body' k) ''total'' = Inr (tot' k)
            \<and> items' k \<noteq> [] \<and> \<not> length (items' k) < cms_pageSize this
            \<and> totalReached B (length (concat (map items' [0..<Suc k]))) (tot' k) = Inr False)
     \<and> fetch' (pageRequest baseUrl (cms_pageSize this * m) (cms_pageSize this)) = Inr r'
     \<and> \<not> resp_ok r'"
  show "fetchAllPages B fetch' this baseUrl =
          Some (map (\<lambda>k. pageRequest baseUrl (cms_pageSize this * k) (cms_pageSize this)) [0..<Suc m],
                Inl (Error (''HTTP error! status: '' @ showNat (resp_status r'))))"
    by (rule sweepJS_failed_page [where body = body' and tot = tot' and items = items'])
       (use h in blast)+
  show "includesStr (''HTTP error! status: '' @ showNat (resp_status r'))
             (showNat (resp_status r'))"
    using includesStr_append [of "''HTTP error! status: ''" "showNat (resp_status r')" "[]"]
    by simp
qed

theorem failed_request_ends_sweep_witness:
  "fetchAllCollectionItems examplePlatform (\<lambda>req. failedResponse 503 ''busy'') ''col'' ''tok'' =
     Some ([itemsRequest ''col'' ''tok'' 0], Inl (Error ''Webflow API 503: busy''))
   \<and> fetchAllPages examplePlatform (\<lambda>req. failedResponse 503 ''busy'')
       (newWebflowCMS JNull JNull JUndefined JUndefined) ''/api/monuments.json'' =
     Some ([pageRequest ''/api/monuments.json'' 0 100], Inl (Error ''HTTP error! status: 503''))"
proof -
  let ?r = "\<lparr>resp_ok = False, resp_status = 503, resp_text = ''busy'', resp_json = Inl SyntaxError\<rparr>"
  let ?up = "\<lambda>req::request. failedResponse 503 ''busy''"
  let ?cms = "newWebflowCMS JNull JNull JUndefined JUndefined"
  have sz: "cms_pageSize ?cms = 100"
    by (simp add: newWebflowCMS_def)
  note th = failed_request_ends_sweep [where n = 0 and fetch = ?up and cid = "''col''"
      and tok = "''tok''" and r = ?r and B = examplePlatform
      and m = 0 and fetch' = ?up and baseUrl = "''/api/monuments.json''" and this = ?cms
      and r' = ?r]
  have 1: "fetchAllCollectionItems examplePlatform ?up ''col'' ''tok'' =
     Some ([itemsRequest ''col'' ''tok'' 0], Inl (Error ''Webflow API 503: busy''))"
    using th [THEN conjunct1] by (simp add: failedResponse_def)
  have 2: "fetchAllPages examplePlatform ?up ?cms ''/api/monuments.json'' =
     Some ([pageRequest ''/api/monuments.json'' 0 100], Inl (Error ''HTTP error! status: 503''))"
    using th [THEN conjunct2] by (simp add: failedResponse_def sz)
  from 1 2 show ?thesis by simp
qed

text \<open>
  The claim as stated asks for the response body in the message of every paginator. The
  client never reads the body of a failed response.
\<close>

theorem client_error_omits_body:
  "fetchAllPages examplePlatform (\<lambda>req. failedResponse 500 ''boom'')
       (newWebflowCMS JNull JNull JUndefined JUndefined) ''/api/monuments.json'' =
     Some ([pageRequest ''/api/monuments.json'' 0 100], Inl (Error ''HTTP error! status: 500''))
   \<and> \<not> includesStr ''HTTP error! status: 500'' ''boom''"
proof -
  have "fetchAllPages_loop examplePlatform (\<lambda>req. failedResponse 500 ''boom'')
          ''/api/monuments.json'' 100 0 [] [] =
        Some ([] @ [pageRequest ''/api/monuments.json'' 0 100],
              Inl (Error (''HTTP error! status: '' @ showNat 500)))"
    using loopJS_http_error [where fetch = "\<lambda>req. failedResponse 500 ''boom''"
        and base = "''/api/monuments.json''" and off = 0 and lmt = 100
        and r = "\<lparr>resp_ok = False, resp_status = 500, resp_text = ''boom'', resp_json = Inl SyntaxError\<rparr>"
        and B = examplePlatform and acc = "[]" and reqs = "[]"]
    by (simp add: failedResponse_def)
  then show ?thesis
    by (simp add: fetchAllPages_def newWebflowCMS_def)
qed

section \<open>The tag parser\<close>

text \<open>
  Claim C9. For every input to \<^verbatim>\<open>parseTags\<close>: an array is returned unchanged; a string
  is split on the comma, each piece trimmed, and the empty pieces dropped, so that
  \<^verbatim>\<open>"a, b ,c"\<close> gives \<^verbatim>\<open>["a","b","c"]\<close>; and every other input, \<^verbatim>\<open>undefined\<close> included,
  gives the empty array.
\<close>

theorem parseTags_cases:
  "(\<forall>xs. parseTags (JArr xs) = JArr xs)
   \<and> (\<forall>s. parseTags (JStr s) =
            JArr (map JStr (filter (\<lambda>piece. piece \<noteq> []) (map trim (splitOn CHR '','' s)))))
   \<and> parseTags (JStr ''a, b ,c'') = JArr [JStr ''a'', JStr ''b'', JStr ''c'']
   \<and> (\<forall>v. (\<forall>xs. v \<noteq> JArr xs) \<and> (\<forall>s. v \<noteq> JStr s) \<longrightarrow> parseTags v = JArr [])
   \<and> parseTags JUndefined = JArr []"
proof (intro conjI allI impI)
  fix xs
  show "parseTags (JArr xs) = JArr xs"
    by (simp add: parseTags_def)
next
  fix s
  show "parseTags (JStr s) =
          JArr (map JStr (filter (\<lambda>piece. piece \<noteq> []) (map trim (splitOn CHR '','' s))))"
    by (cases s) (simp_all add: parseTags_def trim_def)
next
  show "parseTags (JStr ''a, b ,c'') = JArr [JStr ''a'', JStr ''b'', JStr ''c'']"
    by (simp add: parseTags_def trim_def isWhiteSpace_def)
next
  fix v
  assume "(\<forall>xs. v \<noteq> JArr xs) \<and> (\<forall>s. v \<noteq> JStr s)"
  then show "parseTags v = JArr []"
    by (cases v) (simp_all add: parseTags_def)
next
  show "parseTags JUndefined = JArr []"
    by (simp add: parseTags_def)
qed

theorem parseTags_cases_witness:
  "parseTags (JNum (Fin 7)) = JArr [] \<and> parseTags (JObj [(''a'', JNull)]) = JArr []"
  using parseTags_cases by simp

section \<open>The coordinate parser\<close>

lemma parseCoordinates_latlng:
  assumes "CHR '','' \<notin> set a" "CHR '','' \<notin> set b"
    and "parseFloat B (trim a) \<noteq> NaN" "parseFloat B (trim b) \<noteq> NaN"
  shows "parseCoordinates B (JStr (a @ '','' @ b)) =
           Inr (JArr [JNum (parseFloat B (trim a)), JNum (parseFloat B (trim b))])"
  using assms by (simp add: parseCoordinates_def includesStr_char splitOn_pair)

lemma parseCoordinates_fallback:
  assumes "truthy v"
    and "\<not> (\<exists>x y. v = JArr [x, y])"
    and "\<not> (\<exists>a b. v = JStr (a @ '','' @ b) \<and> CHR '','' \<notin> set a \<and> CHR '','' \<notin> set b
              \<and> parseFloat B (trim a) \<noteq> NaN \<and> parseFloat B (trim b) \<noteq> NaN)"
  shows "parseCoordinates B v = geocodeLocation B v"
proof (cases v)
  case (JArr xs)
  with assms(2) have "length xs \<noteq> 2"
    by (cases xs; cases "tl xs"; cases "tl (tl xs)") auto
  with JArr show ?thesis by (simp add: parseCoordinates_def)
next
  case (JStr s)
  let ?ps = "splitOn CHR '','' s"
  have "\<not> (length ?ps = 2 \<and> parseFloat B (trim (?ps ! 0)) \<noteq> NaN \<and> parseFloat B (trim (?ps ! 1)) \<noteq> NaN)"
  proof
    assume h: "length ?ps = 2 \<and> parseFloat B (trim (?ps ! 0)) \<noteq> NaN \<and> parseFloat B (trim (?ps ! 1)) \<noteq> NaN"
    then obtain a b where ab: "s = a @ CHR '','' # b" "CHR '','' \<notin> set a" "CHR '','' \<notin> set b" "?ps = [a, b]"
      using splitOn_two [of "CHR '',''" s] by blast
    with h have "parseFloat B (trim a) \<noteq> NaN \<and> parseFloat B (trim b) \<noteq> NaN" by simp
    with ab assms(3) JStr show False by auto
  qed
  then show ?thesis
    using JStr assms(1) by (auto simp: parseCoordinates_def Let_def)
qed (use assms(1) in \<open>simp_all add: parseCoordinates_def\<close>)

lemma geocodeLocation_miss:
  assumes "toStringJS B v = Inr k" "map_of commonLocations k = None" "k \<notin> set objectPrototypeKeys"
  shows "geocodeLocation B v = Inr JNull"
  using assms by (simp add: geocodeLocation_def bracketGet_def objGet_def)

lemma commonLocations_truthy: "map_of commonLocations k = Some pair \<Longrightarrow> truthy pair"
  by (auto simp: commonLocations_def split: if_splits)

lemma geocodeLocation_hit:
  assumes "toStringJS B v = Inr k" "map_of commonLocations k = Some pair"
  shows "geocodeLocation B v = Inr pair"
  using assms commonLocations_truthy [OF assms(2)]
  by (simp add: geocodeLocation_def bracketGet_def objGet_def)

text \<open>
  Claim C2, as the code has it. A string \<^verbatim>\<open>"<lat>,<lng>"\<close> with one comma whose two
  pieces both parse returns the two parsed numbers. Every two-element array passes
  through unchanged, whatever its elements are. A falsy input gives \<^verbatim>\<open>null\<close>. Any other
  input is looked up in the static table under its property key, which for a string is
  the string itself: the result is the coordinate pair that the table holds for the key
  when the key is one of the six location names of the table, and \<^verbatim>\<open>null\<close> when the key is
  neither a key of the table nor the name of a property inherited from
  \<^verbatim>\<open>Object.prototype\<close>. The table is the one of the source, entry by entry.
\<close>

theorem parseCoordinates_cases:
  "(\<forall>a b. CHR '','' \<notin> set a \<and> CHR '','' \<notin> set b
           \<and> parseFloat B (trim a) \<noteq> NaN \<and> parseFloat B (trim b) \<noteq> NaN
       \<longrightarrow> parseCoordinates B (JStr (a @ '','' @ b)) =
             Inr (JArr [JNum (parseFloat B (trim a)), JNum (parseFloat B (trim b))]))
   \<and> (\<forall>x y. parseCoordinates B (JArr [x, y]) = Inr (JArr [x, y]))
   \<and> (\<forall>v. \<not> truthy v \<longrightarrow> parseCoordinates B v = Inr JNull)
   \<and> (\<forall>v. truthy v
           \<and> \<not> (\<exists>x y. v = JArr [x, y])
           \<and> \<not> (\<exists>a b. v = JStr (a @ '','' @ b) \<and> CHR '','' \<notin> set a \<and> CHR '','' \<notin> set b
                     \<and> parseFloat B (trim a) \<noteq> NaN \<and> parseFloat B (trim b) \<noteq> NaN)
       \<longrightarrow> parseCoordinates B v = geocodeLocation B v)
   \<and> (\<forall>v k. toStringJS B v = Inr k \<and> map_of commonLocations k = None
             \<and> k \<notin> set objectPrototypeKeys
       \<longrightarrow> geocodeLocation B v = Inr JNull)
   \<and> (\<forall>v k pair. toStringJS B v = Inr k \<and> map_of commonLocations k = Some pair
       \<longrightarrow> geocodeLocation B v = Inr pair)
   \<and> (\<forall>s. toStringJS B (JStr s) = Inr s)
   \<and> commonLocations =
       [(''New York, NY'', JArr [JNum (Fin 40.7128), JNum (Fin (- 74.0060))]),
        (''Washington, DC'', JArr [JNum (Fin 38.9072), JNum (Fin (- 77.0369))]),
        (''South Dakota'', JArr [JNum (Fin 43.9695), JNum (Fin (- 99.9018))]),
        (''California'', JArr [JNum (Fin 36.7783), JNum (Fin (- 119.4179))]),
        (''Texas'', JArr [JNum (Fin 31.9686), JNum (Fin (- 99.9018))]),
        (''Florida'', JArr [JNum (Fin 27.7663), JNum (Fin (- 82.6404))])]"
proof (intro conjI allI impI)
  fix a b
  assume "CHR '','' \<notin> set a \<and> CHR '','' \<notin> set b
           \<and> parseFloat B (trim a) \<noteq> NaN \<and> parseFloat B (trim b) \<noteq> NaN"
  then show "parseCoordinates B (JStr (a @ '','' @ b)) =
             Inr (JArr [JNum (parseFloat B (trim a)), JNum (parseFloat B (trim b))])"
    using parseCoordinates_latlng [of a b B] by simp
next
  fix x y show "parseCoordinates B (JArr [x, y]) = Inr (JArr [x, y])"
    by (simp add: parseCoordinates_def)
next
  fix v assume "\<not> truthy v"
  then show "parseCoordinates B v = Inr JNull"
    by (simp add: parseCoordinates_def)
next
  fix v
  assume "truthy v
           \<and> \<not> (\<exists>x y. v = JArr [x, y])
           \<and> \<not> (\<exists>a b. v = JStr (a @ '','' @ b) \<and> CHR '','' \<notin> set a \<and> CHR '','' \<notin> set b
                     \<and> parseFloat B (trim a) \<noteq> NaN \<and> parseFloat B (trim b) \<noteq> NaN)"
  then show "parseCoordinates B v = geocodeLocation B v"
    by (intro parseCoordinates_fallback) blast+
next
  fix v k
  assume "toStringJS B v = Inr k \<and> map_of commonLocations k = None
             \<and> k \<notin> set objectPrototypeKeys"
  then show "geocodeLocation B v = Inr JNull"
    by (intro geocodeLocation_miss [of B v k]) simp_all
next
  fix v k pair
  assume "toStringJS B v = Inr k \<and> map_of commonLocations k = Some pair"
  then show "geocodeLocation B v = Inr pair"
    by (intro geocodeLocation_hit [of B v k]) simp_all
next
  fix s
  show "toStringJS B (JStr s) = Inr s"
    by simp
next
  show "commonLocations =
       [(''New York, NY'', JArr [JNum (Fin 40.7128), JNum (Fin (- 74.0060))]),
        (''Washington, DC'', JArr [JNum (Fin 38.9072), JNum (Fin (- 77.0369))]),
        (''South Dakota'', JArr [JNum (Fin 43.9695), JNum (Fin (- 99.9018))]),
        (''California'', JArr [JNum (Fin 36.7783), JNum (Fin (- 119.4179))]),
        (''Texas'', JArr [JNum (Fin 31.9686), JNum (Fin (- 99.9018))]),
        (''Florida'', JArr [JNum (Fin 27.7663), JNum (Fin (- 82.6404))])]"
    by (simp add: commonLocations_def)
qed

theorem parseCoordinates_cases_witness:
  "parseCoordinates examplePlatform (JStr ''40.5,-74.25'') =
     Inr (JArr [JNum (Fin 40.5), JNum (Fin (- 74.25))])
   \<and> parseCoordinates examplePlatform (JStr ''Atlantis'') = Inr JNull
   \<and> parseCoordinates examplePlatform (JStr ''Texas'') =
     Inr (JArr [JNum (Fin 31.9686), JNum (Fin (- 99.9018))])
   \<and> parseCoordinates examplePlatform (JStr ''New York, NY'') =
     Inr (JArr [JNum (Fin 40.7128), JNum (Fin (- 74.0060))])"
proof -
  note th = parseCoordinates_cases [of examplePlatform]
  note fallback = th [THEN conjunct2, THEN conjunct2, THEN conjunct2, THEN conjunct1, rule_format]
  note miss = th [THEN conjunct2, THEN conjunct2, THEN conjunct2, THEN conjunct2, THEN conjunct1,
      rule_format]
  note hit = th [THEN conjunct2, THEN conjunct2, THEN conjunct2, THEN conjunct2, THEN conjunct2,
      THEN conjunct1, rule_format]
  note key = th [THEN conjunct2, THEN conjunct2, THEN conjunct2, THEN conjunct2, THEN conjunct2,
      THEN conjunct2, THEN conjunct1, rule_format]
  note table = th [THEN conjunct2, THEN conjunct2, THEN conjunct2, THEN conjunct2, THEN conjunct2,
      THEN conjunct2, THEN conjunct2]
  have "parseCoordinates examplePlatform (JStr (''40.5'' @ '','' @ ''-74.25'')) =
     Inr (JArr [JNum (parseFloat examplePlatform (trim ''40.5'')),
                JNum (parseFloat examplePlatform (trim ''-74.25''))])"
    by (rule th [THEN conjunct1, rule_format])
       (simp add: examplePlatform_def trim_def isWhiteSpace_def)
  then have 1: "parseCoordinates examplePlatform (JStr ''40.5,-74.25'') =
     Inr (JArr [JNum (Fin 40.5), JNum (Fin (- 74.25))])"
    by (simp add: examplePlatform_def trim_def isWhiteSpace_def)
  have no_comma: "\<not> (\<exists>a b. JStr s = JStr (a @ '','' @ b) \<and> CHR '','' \<notin> set a \<and> CHR '','' \<notin> set b
              \<and> parseFloat examplePlatform (trim a) \<noteq> NaN
              \<and> parseFloat examplePlatform (trim b) \<noteq> NaN)" if "CHR '','' \<notin> set s" for s
  proof
    assume "\<exists>a b. JStr s = JStr (a @ '','' @ b) \<and> CHR '','' \<notin> set a \<and> CHR '','' \<notin> set b
              \<and> parseFloat examplePlatform (trim a) \<noteq> NaN
              \<and> parseFloat examplePlatform (trim b) \<noteq> NaN"
    then obtain a b where "s = a @ '','' @ b" by auto
    then have "CHR '','' \<in> set s" by simp
    with that show False by simp
  qed
  have "parseCoordinates examplePlatform (JStr ''Atlantis'') =
             geocodeLocation examplePlatform (JStr ''Atlantis'')"
    by (intro fallback conjI no_comma) simp_all
  moreover have "geocodeLocation examplePlatform (JStr ''Atlantis'') = Inr JNull"
    by (rule miss [of _ "''Atlantis''"]) (simp add: key table objectPrototypeKeys_def)
  ultimately have 2: "parseCoordinates examplePlatform (JStr ''Atlantis'') = Inr JNull"
    by simp
  have "parseCoordinates examplePlatform (JStr ''Texas'') =
             geocodeLocation examplePlatform (JStr ''Texas'')"
    by (intro fallback conjI no_comma) simp_all
  moreover have "geocodeLocation examplePlatform (JStr ''Texas'') =
       Inr (JArr [JNum (Fin 31.9686), JNum (Fin (- 99.9018))])"
    by (rule hit [of _ "''Texas''"]) (simp add: key table)
  ultimately have 3: "parseCoordinates examplePlatform (JStr ''Texas'') =
       Inr (JArr [JNum (Fin 31.9686), JNum (Fin (- 99.9018))])"
    by simp
  have ny: "\<not> (\<exists>a b. JStr ''New York, NY'' = JStr (a @ '','' @ b)
              \<and> CHR '','' \<notin> set a \<and> CHR '','' \<notin> set b
              \<and> parseFloat examplePlatform (trim a) \<noteq> NaN
              \<and> parseFloat examplePlatform (trim b) \<noteq> NaN)"
  proof
    assume "\<exists>a b. JStr ''New York, NY'' = JStr (a @ '','' @ b)
              \<and> CHR '','' \<notin> set a \<and> CHR '','' \<notin> set b
              \<and> parseFloat examplePlatform (trim a) \<noteq> NaN
              \<and> parseFloat examplePlatform (trim b) \<noteq> NaN"
    then obtain a b where ab: "''New York, NY'' = a @ CHR '','' # b"
      "CHR '','' \<notin> set a" "CHR '','' \<notin> set b"
      "parseFloat examplePlatform (trim a) \<noteq> NaN"
      by auto
    have "splitOn CHR '','' (a @ CHR '','' # b) = [a, b]"
      using ab(2,3) by (rule splitOn_pair)
    then have "splitOn CHR '','' ''New York, NY'' = [a, b]"
      using ab(1) by simp
    then have "a = ''New York''"
      by simp
    with ab(4) show False
      by (simp add: examplePlatform_def trim_def isWhiteSpace_def)
  qed
  have "parseCoordinates examplePlatform (JStr ''New York, NY'') =
             geocodeLocation examplePlatform (JStr ''New York, NY'')"
    by (intro fallback conjI ny) simp_all
  moreover have "geocodeLocation examplePlatform (JStr ''New York, NY'') =
       Inr (JArr [JNum (Fin 40.7128), JNum (Fin (- 74.0060))])"
    by (rule hit [of _ "''New York, NY''"]) (simp add: key table)
  ultimately have 4: "parseCoordinates examplePlatform (JStr ''New York, NY'') =
       Inr (JArr [JNum (Fin 40.7128), JNum (Fin (- 74.0060))])"
    by simp
  from 1 2 3 4 show ?thesis
    by simp
qed

text \<open>
  The claim as stated says that a two-element array of strings that are not numbers does
  not pass through. It does: the code tests \<^verbatim>\<open>Array.isArray\<close> and the length only.
\<close>

theorem parseCoordinates_string_pair_passes:
  "parseCoordinates examplePlatform (JArr [JStr ''north'', JStr ''south'']) =
     Inr (JArr [JStr ''north'', JStr ''south''])"
  by (simp add: parseCoordinates_def)

section \<open>The normalisation of one item\<close>

text \<open>
  A well-formed item: the vendor's field names are mapped, the coordinates parsed, the
  markup stripped from the description and the tags split.
\<close>

lemma monumentItem_liberty: "monumentItem examplePlatform libertyItem = Inr libertyMonument"
  by (simp add: monumentItem_def libertyItem_def libertyMonument_def objGet_def
        objectPrototypeKeys_def parseCoordinates_def includesStr_char stripHtml_def
        parseTags_def trim_def isWhiteSpace_def examplePlatform_def)

text \<open>
  Claim C6 says that the normalisation never raises. \<^verbatim>\<open>stripHtml\<close> returns the empty string
  for a falsy argument and calls \<^verbatim>\<open>html.replace\<close> on every other one, so a description
  that is a number raises a \<^verbatim>\<open>TypeError\<close>, for both collection kinds. The \<^verbatim>\<open>catch\<close> of
  \<^verbatim>\<open>fetchMonuments\<close> then returns \<^verbatim>\<open>[]\<close>: the well-formed item of the same page is lost
  with it, and nothing is cached.
\<close>

theorem normalisation_raises:
  "stripHtml (JNum (Fin 42)) = Inl TypeError
   \<and> monumentItem B brokenItem = Inl TypeError
   \<and> ecosystemItem B brokenItem = Inl TypeError
   \<and> fetchMonuments examplePlatform (\<lambda>req. okResponse (itemsPage [libertyItem, brokenItem]))
         1000 1007 freshClient
       = Some ([pageRequest monumentsUrl 0 100], Inr [], freshClient)"
proof -
  have s: "stripHtml (JNum (Fin 42)) = Inl TypeError"
    by (simp add: stripHtml_def)
  have m: "monumentItem B brokenItem = Inl TypeError" for B
    by (simp add: monumentItem_def brokenItem_def objGet_def objectPrototypeKeys_def
          parseCoordinates_def s)
  have e: "ecosystemItem B brokenItem = Inl TypeError"
    by (simp add: ecosystemItem_def brokenItem_def objGet_def objectPrototypeKeys_def
          mapTypeAndCategory_def bracketGet_def typeMap_def categoryMap_def s)
  have sz: "cms_pageSize freshClient = 100"
    by (simp add: freshClient_def newWebflowCMS_def)
  have miss: "getCachedData freshClient 1000 ''monuments'' = None"
    by (simp add: getCachedData_def freshClient_def newWebflowCMS_def)
  have sweep: "fetchAllPages examplePlatform (\<lambda>req. okResponse (itemsPage [libertyItem, brokenItem]))
                 freshClient monumentsUrl
               = Some ([pageRequest monumentsUrl 0 100], Inr [libertyItem, brokenItem])"
    by (simp add: client_single_page sz)
  have f: "fetchMonuments examplePlatform (\<lambda>req. okResponse (itemsPage [libertyItem, brokenItem]))
             1000 1007 freshClient
           = Some ([pageRequest monumentsUrl 0 100], Inr [], freshClient)"
    by (simp add: fetchMonuments_def miss sweep monumentItem_liberty m)
  from s m e f show ?thesis
    by simp
qed

section \<open>The cache\<close>



lemma fetchAllPages_after_set [simp]:
  "fetchAllPages B fetch (setCachedData this w key xs) baseUrl = fetchAllPages B fetch this baseUrl"
  by (simp add: fetchAllPages_def setCachedData_def)













section \<open>A producer that fails\<close>

text \<open>
  Claim C3, as the code has it. When the lookup misses and the sweep fails, or the
  normalisation of an item raises, \<^verbatim>\<open>fetchMonuments\<close> and \<^verbatim>\<open>fetchEcosystem\<close> catch the
  failure and return the empty list to the caller. No entry is written: the object, and
  with it every cache entry, a prior one for the key included, is exactly as it was.
\<close>

theorem failed_producer_gives_empty_list:
  "(getCachedData this nowRead ''monuments'' = None
      \<and> (fetchAllPages B fetch this monumentsUrl = Some (reqs, Inl e)
          \<or> (\<exists>items. fetchAllPages B fetch this monumentsUrl = Some (reqs, Inr items)
                \<and> mapE (monumentItem B) items = Inl e))
    \<longrightarrow> fetchMonuments B fetch nowRead nowWrite this = Some (reqs, Inr [], this))
   \<and> (getCachedData this nowRead ''ecosystem'' = None
      \<and> (fetchAllPages B fetch this ecosystemUrl = Some (reqs, Inl e)
          \<or> (\<exists>items. fetchAllPages B fetch this ecosystemUrl = Some (reqs, Inr items)
                \<and> mapE (ecosystemItem B) items = Inl e))
    \<longrightarrow> fetchEcosystem B fetch nowRead nowWrite this = Some (reqs, Inr [], this))"
  by (auto simp: fetchMonuments_def fetchEcosystem_def)

theorem failed_producer_gives_empty_list_witness:
  "fetchMonuments examplePlatform (\<lambda>req. failedResponse 500 ''boom'') 400000 400007 staleClient
     = Some ([pageRequest monumentsUrl 0 100], Inr [], staleClient)
   \<and> cms_cache staleClient ''monuments''
       = Some \<lparr>entry_data = [JObj [(''id'', JStr ''m1'')]], entry_timestamp = 0\<rparr>
   \<and> fetchEcosystem examplePlatform (\<lambda>req. failedResponse 500 ''boom'') 400000 400007 staleClient
     = Some ([pageRequest ecosystemUrl 0 100], Inr [], staleClient)"
proof -
  have sz: "cms_pageSize staleClient = 100"
    by (simp add: staleClient_def setCachedData_def newWebflowCMS_def)
  have miss: "getCachedData staleClient 400000 ''monuments'' = None"
    "getCachedData staleClient 400000 ''ecosystem'' = None"
    by (simp_all add: getCachedData_def staleClient_def setCachedData_def newWebflowCMS_def)
  note th = failed_producer_gives_empty_list [where this = staleClient and nowRead = 400000
      and B = examplePlatform and fetch = "\<lambda>req. failedResponse 500 ''boom''"
      and e = "Error (''HTTP error! status: '' @ showNat 500)" and nowWrite = 400007]
  have 1: "fetchMonuments examplePlatform (\<lambda>req. failedResponse 500 ''boom'') 400000 400007 staleClient
     = Some ([pageRequest monumentsUrl 0 100], Inr [], staleClient)"
    by (rule th [THEN conjunct1, rule_format]) (simp add: miss client_sweep_fails [OF sz])
  have 2: "fetchEcosystem examplePlatform (\<lambda>req. failedResponse 500 ''boom'') 400000 400007 staleClient
     = Some ([pageRequest ecosystemUrl 0 100], Inr [], staleClient)"
    by (rule th [THEN conjunct2, rule_format]) (simp add: miss client_sweep_fails [OF sz])
  have 3: "cms_cache staleClient ''monuments''
       = Some \<lparr>entry_data = [JObj [(''id'', JStr ''m1'')]], entry_timestamp = 0\<rparr>"
    by (simp add: staleClient_def setCachedData_def)
  from 1 2 3 show ?thesis by simp
qed

text \<open>
  The claim as stated has the failure reach the caller. The sweep below fails with an
  HTTP error, and the promise of \<^verbatim>\<open>fetchMonuments\<close> is fulfilled with \<^verbatim>\<open>[]\<close>.
\<close>

theorem failure_does_not_propagate:
  "fetchAllPages examplePlatform (\<lambda>req. failedResponse 500 ''boom'')
      (newWebflowCMS JNull JNull JUndefined JUndefined) monumentsUrl
     = Some ([pageRequest monumentsUrl 0 100], Inl (Error ''HTTP error! status: 500''))
   \<and> fetchMonuments examplePlatform (\<lambda>req. failedResponse 500 ''boom'') 1000 1007
      (newWebflowCMS JNull JNull JUndefined JUndefined)
     = Some ([pageRequest monumentsUrl 0 100], Inr [],
             newWebflowCMS JNull JNull JUndefined JUndefined)"
proof -
  let ?cms = "newWebflowCMS JNull JNull JUndefined JUndefined"
  have sz: "cms_pageSize ?cms = 100"
    by (simp add: newWebflowCMS_def)
  have miss: "getCachedData ?cms 1000 ''monuments'' = None"
    by (simp add: getCachedData_def newWebflowCMS_def)
  show ?thesis
    by (simp add: fetchMonuments_def miss client_sweep_fails [OF sz])
qed

section \<open>The replies of the route handlers\<close>

lemma errorReply_shape [simp]:
  "reply_status (errorReply m) = 500"
  "reply_headers (errorReply m) = [(''Content-Type'', ''application/json'')]"
  by (simp_all add: errorReply_def)

lemma itemsReply_shape [simp]:
  "reply_status (itemsReply xs) = 200"
  "corsHeaders (reply_headers (itemsReply xs)) = [Some ''*'', Some ''GET'', Some ''Content-Type'']"
  by (simp_all add: itemsReply_def corsHeaders_def)

lemma GET_monuments_cases:
  "(\<exists>m. GET_monuments B fetch locals = Some ([], errorReply m))
   \<or> (\<exists>reqs m. GET_monuments B fetch locals = Some (reqs, errorReply m))
   \<or> (\<exists>reqs xs. GET_monuments B fetch locals = Some (reqs, itemsReply xs))
   \<or> GET_monuments B fetch locals = None"
  by (auto simp: GET_monuments_def split: option.splits sum.splits prod.splits)

lemma GET_ecosystem_cases:
  "(\<exists>m. GET_ecosystem B fetch locals = Some ([], errorReply m))
   \<or> (\<exists>reqs m. GET_ecosystem B fetch locals = Some (reqs, errorReply m))
   \<or> (\<exists>reqs xs. GET_ecosystem B fetch locals = Some (reqs, itemsReply xs))
   \<or> GET_ecosystem B fetch locals = None"
  by (auto simp: GET_ecosystem_def split: option.splits sum.splits prod.splits)

text \<open>
  Claim C10. The two handlers answer 500 when a credential is missing or empty and when
  the sweep fails, and 200 when the sweep succeeds. Every reply with status 500 carries
  the single header \<^verbatim>\<open>Content-Type: application/json\<close> and none of
  \<^verbatim>\<open>Access-Control-Allow-Origin\<close>, \<^verbatim>\<open>Access-Control-Allow-Methods\<close> and
  \<^verbatim>\<open>Access-Control-Allow-Headers\<close>; every reply with status 200 carries all three.
\<close>

theorem error_replies_have_no_cors:
  "(unset (WEBFLOW_API_TOKEN locals) \<or> unset (MONUMENTS_COLLECTION_ID locals)
      \<longrightarrow> GET_monuments B fetch locals = Some ([], errorReply ''Missing API credentials''))
   \<and> (WEBFLOW_API_TOKEN locals = Some apiToken \<and> apiToken \<noteq> []
        \<and> MONUMENTS_COLLECTION_ID locals = Some collectionId \<and> collectionId \<noteq> []
        \<and> fetchAllCollectionItems B fetch collectionId apiToken = Some (reqs, Inl e)
      \<longrightarrow> GET_monuments B fetch locals = Some (reqs, errorReply ''Failed to fetch monuments''))
   \<and> (WEBFLOW_API_TOKEN locals = Some apiToken \<and> apiToken \<noteq> []
        \<and> MONUMENTS_COLLECTION_ID locals = Some collectionId \<and> collectionId \<noteq> []
        \<and> fetchAllCollectionItems B fetch collectionId apiToken = Some (reqs, Inr items)
      \<longrightarrow> GET_monuments B fetch locals = Some (reqs, itemsReply items))
   \<and> (unset (WEBFLOW_API_TOKEN locals) \<or> unset (ECOSYSTEM_COLLECTION_ID locals)
      \<longrightarrow> GET_ecosystem B fetch locals = Some ([], errorReply ''Missing API credentials''))
   \<and> (WEBFLOW_API_TOKEN locals = Some apiToken \<and> apiToken \<noteq> []
        \<and> ECOSYSTEM_COLLECTION_ID locals = Some collectionId' \<and> collectionId' \<noteq> []
        \<and> fetchAllCollectionItems B fetch collectionId' apiToken = Some (reqs', Inl e')
      \<longrightarrow> GET_ecosystem B fetch locals = Some (reqs', errorReply ''Failed to fetch ecosystem''))
   \<and> (WEBFLOW_API_TOKEN locals = Some apiToken \<and> apiToken \<noteq> []
        \<and> ECOSYSTEM_COLLECTION_ID locals = Some collectionId' \<and> collectionId' \<noteq> []
        \<and> fetchAllCollectionItems B fetch collectionId' apiToken = Some (reqs', Inr items')
      \<longrightarrow> GET_ecosystem B fetch locals = Some (reqs', itemsReply items'))
   \<and> (\<forall>rs reply. GET_monuments B fetch locals = Some (rs, reply)
                     \<or> GET_ecosystem B fetch locals = Some (rs, reply)
        \<longrightarrow> (reply_status reply = 500 \<or> reply_status reply = 200)
          \<and> (reply_status reply = 500
               \<longrightarrow> reply_headers reply = [(''Content-Type'', ''application/json'')]
                 \<and> corsHeaders (reply_headers reply) = [None, None, None])
          \<and> (reply_status reply = 200
               \<longrightarrow> corsHeaders (reply_headers reply)
                     = [Some ''*'', Some ''GET'', Some ''Content-Type'']))"
proof (intro conjI allI impI)
  fix rs reply
  assume h: "GET_monuments B fetch locals = Some (rs, reply)
             \<or> GET_ecosystem B fetch locals = Some (rs, reply)"
  then have shape: "(\<exists>m. reply = errorReply m) \<or> (\<exists>xs. reply = itemsReply xs)"
    using GET_monuments_cases [of B fetch locals] GET_ecosystem_cases [of B fetch locals]
    by auto
  from shape show "reply_status reply = 500 \<or> reply_status reply = 200"
    by auto
  {
    assume "reply_status reply = 500"
    with shape obtain m where "reply = errorReply m" by auto
    then show "reply_headers reply = [(''Content-Type'', ''application/json'')]"
      and "corsHeaders (reply_headers reply) = [None, None, None]"
      by (simp_all add: corsHeaders_def)
  }
  {
    assume "reply_status reply = 200"
    with shape obtain xs where "reply = itemsReply xs" by auto
    then show "corsHeaders (reply_headers reply) = [Some ''*'', Some ''GET'', Some ''Content-Type'']"
      by simp
  }
qed (auto simp: GET_monuments_def GET_ecosystem_def unset_def split: option.splits)

theorem error_replies_have_no_cors_witness:
  "GET_monuments examplePlatform (\<lambda>req. failedResponse 500 ''boom'') exampleEnv
     = Some ([itemsRequest ''col'' ''tok'' 0], errorReply ''Failed to fetch monuments'')
   \<and> GET_ecosystem examplePlatform (\<lambda>req. failedResponse 500 ''boom'') exampleEnv
     = Some ([], errorReply ''Missing API credentials'')
   \<and> reply_headers (errorReply ''Failed to fetch monuments'')
     = [(''Content-Type'', ''application/json'')]
   \<and> corsHeaders (reply_headers (errorReply ''Failed to fetch monuments'')) = [None, None, None]
   \<and> corsHeaders (reply_headers (errorReply ''Missing API credentials'')) = [None, None, None]"
proof -
  let ?up = "\<lambda>req::request. failedResponse 500 ''boom''"
  note th = error_replies_have_no_cors [where locals = exampleEnv and B = examplePlatform
      and fetch = ?up and apiToken = "''tok''" and collectionId = "''col''"
      and reqs = "[itemsRequest ''col'' ''tok'' 0]"
      and e = "Error (''Webflow API '' @ showNat 500 @ '': '' @ ''boom'')"]
  have 1: "GET_monuments examplePlatform ?up exampleEnv
     = Some ([itemsRequest ''col'' ''tok'' 0], errorReply ''Failed to fetch monuments'')"
    by (rule th [THEN conjunct2, THEN conjunct1, rule_format])
       (simp add: exampleEnv_def proxy_sweep_fails)
  have 2: "GET_ecosystem examplePlatform ?up exampleEnv
     = Some ([], errorReply ''Missing API credentials'')"
    by (rule th [THEN conjunct2, THEN conjunct2, THEN conjunct2, THEN conjunct1, rule_format])
       (simp add: exampleEnv_def unset_def)
  note last = th [THEN conjunct2, THEN conjunct2, THEN conjunct2, THEN conjunct2,
      THEN conjunct2, THEN conjunct2, rule_format]
  have 3: "reply_headers (errorReply ''Failed to fetch monuments'')
             = [(''Content-Type'', ''application/json'')]
           \<and> corsHeaders (reply_headers (errorReply ''Failed to fetch monuments''))
             = [None, None, None]"
    using last [of "[itemsRequest ''col'' ''tok'' 0]" "errorReply ''Failed to fetch monuments''"] 1
    by simp
  have 4: "corsHeaders (reply_headers (errorReply ''Missing API credentials'')) = [None, None, None]"
    using last [of "[]" "errorReply ''Missing API credentials''"] 2
    by simp
  from 1 2 3 4 show ?thesis
    by simp
qed

end
